theory Spec2Isabelle
  imports Complex_Main "HOL-Library.AList"
begin

section \<open>Common data: exceptions, floats, columns and frames\<close>

text \<open>
  The Python exceptions the modules raise (\<^verbatim>\<open>raise KeyError(...)\<close>,
  \<^verbatim>\<open>raise ValueError(...)\<close>) or let escape from the standard library and from
  pandas/NumPy. A call that raises is \<open>Inl\<close> of the exception, a call that returns
  is \<open>Inr\<close> of its value.
\<close>

datatype error =
    KeyError
  | ValueError
  | IndexError
  | AttributeError
  | TypeError
  | FileNotFoundError
  | InvalidIndexError
  | LibraryError

text \<open>
  A float is a real number or NaN (\<open>None\<close>); pandas' null in a numeric column is NaN.
  Comparisons with NaN are false and arithmetic on NaN gives NaN, as in IEEE 754.

  Arithmetic is exact here: rounding and the infinities are not modelled. float64 rounds
  the result of every operation to a nearest representable number, so a computed value
  can differ from the exact one in its last digits, and a small addend is absorbed by a
  large operand (\<open>0.001\<close> beside \<open>10 ^ 17\<close>). Rounding is monotonic and leaves
  representable numbers alone; the theorems on computed bounds and cut-points state the
  order facts that it therefore preserves (weak inequalities between a value and the
  same value moved by a term of known sign), and no strict inequality or distance that
  it can destroy.
\<close>

type_synonym float = "real option"

fun fle :: "float \<Rightarrow> float \<Rightarrow> bool" where
  "fle (Some x) (Some y) = (x \<le> y)"
| "fle _ _ = False"

fun flt :: "float \<Rightarrow> float \<Rightarrow> bool" where
  "flt (Some x) (Some y) = (x < y)"
| "flt _ _ = False"

fun feq :: "float \<Rightarrow> float \<Rightarrow> bool" where
  "feq (Some x) (Some y) = (x = y)"
| "feq _ _ = False"

fun fadd :: "float \<Rightarrow> float \<Rightarrow> float" where
  "fadd (Some x) (Some y) = Some (x + y)"
| "fadd _ _ = None"

fun fsub :: "float \<Rightarrow> float \<Rightarrow> float" where
  "fsub (Some x) (Some y) = Some (x - y)"
| "fsub _ _ = None"

fun fmul :: "float \<Rightarrow> float \<Rightarrow> float" where
  "fmul (Some x) (Some y) = Some (x * y)"
| "fmul _ _ = None"

text \<open>A calendar date (a pandas Timestamp, time of day left out) and its monthly period.\<close>

record date =
  d_year :: int
  d_month :: nat
  d_day :: nat

definition to_period_M :: "date \<Rightarrow> int \<times> nat" where
  "to_period_M d = (d_year d, d_month d)"

text \<open>
  A DataFrame is an ordered list of named, typed columns. A datetime cell may be NaT
  (\<open>None\<close>); a cell of a range column is a pair of bounds or Python's \<open>None\<close>.
\<close>

datatype column =
    FloatCol "float list"
  | IntCol "int list"
  | StrCol "string list"
  | DateCol "date option list"
  | RangeCol "(float \<times> float) option list"
  | BoolCol "bool list"

fun col_length :: "column \<Rightarrow> nat" where
  "col_length (FloatCol xs) = length xs"
| "col_length (IntCol xs) = length xs"
| "col_length (StrCol xs) = length xs"
| "col_length (DateCol xs) = length xs"
| "col_length (RangeCol xs) = length xs"
| "col_length (BoolCol xs) = length xs"

type_synonym frame = "(string \<times> column) list"

text \<open>\<^verbatim>\<open>df[name]\<close>: the column, or KeyError.\<close>

definition df_get :: "frame \<Rightarrow> string \<Rightarrow> error + column" where
  "df_get df name = (case map_of df name of None \<Rightarrow> Inl KeyError | Some c \<Rightarrow> Inr c)"

text \<open>\<^verbatim>\<open>df[name] = c\<close>: replaces the column in place or appends it as the last one.\<close>

definition df_set :: "frame \<Rightarrow> string \<Rightarrow> column \<Rightarrow> frame" where
  "df_set df name c = AList.update name c df"

definition df_drop :: "frame \<Rightarrow> string \<Rightarrow> frame" where
  "df_drop df name = AList.delete name df"

section \<open>Textual form of integers\<close>

text \<open>Python's \<^verbatim>\<open>str\<close> of an integer: decimal digits, a minus sign when negative.\<close>

definition digit_char :: "nat \<Rightarrow> char" where
  "digit_char d = ''0123456789'' ! d"

function str_nat :: "nat \<Rightarrow> string" where
  "str_nat n = (if n < 10 then [digit_char n] else str_nat (n div 10) @ [digit_char (n mod 10)])"
  by pat_completeness auto
termination
  by (relation "measure (\<lambda>n. n)") auto

declare str_nat.simps [simp del]

definition str_int :: "int \<Rightarrow> string" where
  "str_int i = (if i < 0 then CHR ''-'' # str_nat (nat (- i)) else str_nat (nat i))"

text \<open>
  \<^verbatim>\<open>Series.astype(str)\<close> and \<^verbatim>\<open>str(cell)\<close>, cell by cell. An integer column gives
  decimal numerals and a string column is unchanged. How Python prints floats,
  timestamps and tuples is not part of this repository: \<open>other\<close> stands for it.
\<close>

fun astype_str :: "(column \<Rightarrow> string list) \<Rightarrow> column \<Rightarrow> string list" where
  "astype_str other (IntCol xs) = map str_int xs"
| "astype_str other (StrCol xs) = xs"
| "astype_str other (BoolCol xs) = map (\<lambda>b. if b then ''True'' else ''False'') xs"
| "astype_str other c = other c"

section \<open>segment\_assigner.py: class RFMProcessor\<close>

text \<open>
  The parsed YAML document as far as \<^verbatim>\<open>RFMProcessor\<close> reads it: the top-level keys
  \<^verbatim>\<open>score_method\<close> and \<^verbatim>\<open>business_categories\<close> (\<open>None\<close> when the key is absent; a
  dict keeps its declaration order), and
  \<^verbatim>\<open>global_settings.date_range.interval\<close> (\<open>None\<close> when a key on that path is absent).
\<close>

record yaml_config =
  y_score_method :: "string option"
  y_business_categories :: "(string \<times> string list) list option"
  y_date_interval :: "string option"

text \<open>
  \<^verbatim>\<open>DataLoader.get_date_range_for_rfm\<close>: the configured interval must be one of three
  names; the computed range is then overwritten by two fixed dates.
\<close>

definition get_date_range_for_rfm :: "yaml_config \<Rightarrow> error + (date \<times> date)" where
  "get_date_range_for_rfm cfg =
     (case y_date_interval cfg of
        None \<Rightarrow> Inl KeyError
      | Some interval \<Rightarrow>
          if interval = ''months'' \<or> interval = ''days'' \<or> interval = ''years''
          then Inr (\<lparr>d_year = 2023, d_month = 12, d_day = 1\<rparr>,
                    \<lparr>d_year = 2024, d_month = 12, d_day = 10\<rparr>)
          else Inl ValueError)"

record RFMProcessor =
  score_method :: string
  business_categories :: "(string \<times> string list) list"
  end_date :: "date option"

text \<open>The default of \<^verbatim>\<open>score_method\<close>: the word with an accented o (UTF-8 bytes C3 B3).\<close>

definition combinacion_accented :: string where
  "combinacion_accented = ''combinaci'' @ [char_of (195 :: nat), char_of (179 :: nat)] @ ''n''"

definition init_fallback :: RFMProcessor where
  "init_fallback =
     \<lparr>score_method = combinacion_accented, business_categories = [], end_date = None\<rparr>"

text \<open>
  \<^verbatim>\<open>RFMProcessor.__init__\<close>. The argument is the outcome of
  \<^verbatim>\<open>DataLoader.load_config(config_path)\<close>. FileNotFoundError and ValueError are caught
  and leave the fallback attributes (and no \<^verbatim>\<open>end_date\<close> attribute: \<open>None\<close>); any
  other exception escapes.
\<close>

definition RFMProcessor_init :: "error + yaml_config \<Rightarrow> error + RFMProcessor" where
  "RFMProcessor_init loaded =
     (case (case loaded of
              Inl e \<Rightarrow> Inl e
            | Inr cfg \<Rightarrow>
                (case get_date_range_for_rfm cfg of
                   Inl e \<Rightarrow> Inl e
                 | Inr (start, end) \<Rightarrow>
                     Inr \<lparr>score_method =
                            (case y_score_method cfg of None \<Rightarrow> combinacion_accented | Some m \<Rightarrow> m),
                          business_categories =
                            (case y_business_categories cfg of None \<Rightarrow> [] | Some b \<Rightarrow> b),
                          end_date = Some end\<rparr>)) of
        Inl e \<Rightarrow> if e = FileNotFoundError \<or> e = ValueError then Inr init_fallback else Inl e
      | Inr p \<Rightarrow> Inr p)"

text \<open>
  The numeric view of a score column for \<^verbatim>\<open>sum(axis=1)\<close> and \<^verbatim>\<open>mean(axis=1)\<close>;
  a column that is not numeric is a TypeError.
\<close>

fun as_floats :: "column \<Rightarrow> error + float list" where
  "as_floats (IntCol xs) = Inr (map (\<lambda>i. Some (of_int i)) xs)"
| "as_floats (FloatCol xs) = Inr xs"
| "as_floats _ = Inl TypeError"

text \<open>Row-wise sum and mean as pandas computes them: nulls are skipped.\<close>

definition row_sum :: "float list \<Rightarrow> float" where
  "row_sum cells = Some (sum_list (map (\<lambda>c. case c of None \<Rightarrow> 0 | Some x \<Rightarrow> x) cells))"

definition row_mean :: "float list \<Rightarrow> float" where
  "row_mean cells =
     (let present = filter (\<lambda>c. c \<noteq> None) cells in
      if present = [] then None
      else Some (sum_list (map the present) / of_nat (length present)))"

fun rows3 :: "'a list \<Rightarrow> 'a list \<Rightarrow> 'a list \<Rightarrow> 'a list list" where
  "rows3 (a # as) (b # bs) (c # cs) = [a, b, c] # rows3 as bs cs"
| "rows3 _ _ _ = []"

definition calculate_final_score ::
  "(column \<Rightarrow> string list) \<Rightarrow> RFMProcessor \<Rightarrow> frame \<Rightarrow> error + column" where
  "calculate_final_score other self df =
     (if score_method self = ''combinacion'' then
        (case df_get df ''Recency_score'' of Inl e \<Rightarrow> Inl e | Inr r \<Rightarrow>
         case df_get df ''Frequency_score'' of Inl e \<Rightarrow> Inl e | Inr f \<Rightarrow>
         case df_get df ''Monetary_score'' of Inl e \<Rightarrow> Inl e | Inr m \<Rightarrow>
           Inr (StrCol (map concat
                  (rows3 (astype_str other r) (astype_str other f) (astype_str other m)))))
      else if score_method self = ''suma'' \<or> score_method self = ''promedio'' then
        (case df_get df ''Recency_score'' of Inl e \<Rightarrow> Inl e | Inr r \<Rightarrow>
         case df_get df ''Frequency_score'' of Inl e \<Rightarrow> Inl e | Inr f \<Rightarrow>
         case df_get df ''Monetary_score'' of Inl e \<Rightarrow> Inl e | Inr m \<Rightarrow>
         case as_floats r of Inl e \<Rightarrow> Inl e | Inr rs \<Rightarrow>
         case as_floats f of Inl e \<Rightarrow> Inl e | Inr fs \<Rightarrow>
         case as_floats m of Inl e \<Rightarrow> Inl e | Inr ms \<Rightarrow>
           Inr (FloatCol (map (if score_method self = ''suma'' then row_sum else row_mean)
                  (rows3 rs fs ms))))
      else Inl ValueError)"

text \<open>The fallback label, with an accented i (UTF-8 bytes C3 AD).\<close>

definition sin_categoria :: string where
  "sin_categoria = ''Sin Categor'' @ [char_of (195 :: nat), char_of (173 :: nat)] @ ''a''"

text \<open>
  The nested function \<^verbatim>\<open>categorize\<close>: the loop over
  \<^verbatim>\<open>self.business_categories.items()\<close> returns at the first category whose list
  holds the score's textual form.
\<close>

fun categorize :: "(string \<times> string list) list \<Rightarrow> string \<Rightarrow> string" where
  "categorize [] s = sin_categoria"
| "categorize ((category, vals) # rest) s =
     (if s \<in> set vals then category else categorize rest s)"

text \<open>\<^verbatim>\<open>df['MonthsWithPurchases'] == 1\<close>, cell by cell; a cell that is no number is unequal.\<close>

fun eq_one :: "column \<Rightarrow> bool list" where
  "eq_one (IntCol xs) = map (\<lambda>x. x = 1) xs"
| "eq_one (FloatCol xs) = map (\<lambda>x. feq x (Some 1)) xs"
| "eq_one (StrCol xs) = map (\<lambda>x. False) xs"
| "eq_one (DateCol xs) = map (\<lambda>x. False) xs"
| "eq_one (RangeCol xs) = map (\<lambda>x. False) xs"
| "eq_one (BoolCol xs) = xs"

text \<open>\<^verbatim>\<open>.dt.to_period('M')\<close>: only a datetime column has the accessor; NaT stays NaT.\<close>

fun dt_to_period_M :: "column \<Rightarrow> error + (int \<times> nat) option list" where
  "dt_to_period_M (DateCol ds) = Inr (map (map_option to_period_M) ds)"
| "dt_to_period_M _ = Inl AttributeError"

text \<open>
  \<^verbatim>\<open>assign_business_categories\<close>. The rows flagged \<^verbatim>\<open>IsNew\<close> get \<^verbatim>\<open>'Nuevo'\<close>, the
  others the result of \<^verbatim>\<open>categorize\<close> on the textual form of their score; the two
  masked assignments together write every row of \<^verbatim>\<open>Business_Category\<close>. The helper
  column is written before the score column is read and dropped at the end.

  The first masked assignment, \<^verbatim>\<open>df.loc[df['IsNew'], 'Business_Category'] = 'Nuevo'\<close>,
  creates the column when the table has none of that name. pandas refuses to create a
  column from a scalar in a table without rows (ValueError, "cannot set a frame with no
  defined index and a scalar"), so on such a table the call raises.
\<close>

definition assign_business_categories ::
  "(column \<Rightarrow> string list) \<Rightarrow> RFMProcessor \<Rightarrow> frame \<Rightarrow> string \<Rightarrow> error + frame" where
  "assign_business_categories other self df score_column =
     (if map_of df score_column = None then Inl KeyError else
      case df_get df ''MonthsWithPurchases'' of Inl e \<Rightarrow> Inl e | Inr months \<Rightarrow>
      case df_get df ''LastPurchaseDate'' of Inl e \<Rightarrow> Inl e | Inr lastp \<Rightarrow>
      case dt_to_period_M lastp of Inl e \<Rightarrow> Inl e | Inr periods \<Rightarrow>
      case end_date self of None \<Rightarrow> Inl AttributeError | Some ed \<Rightarrow>
        let is_new = map (\<lambda>(m, p). m \<and> p = Some (to_period_M ed)) (zip (eq_one months) periods);
            df1 = df_set df ''IsNew'' (BoolCol is_new)
        in if is_new = [] \<and> map_of df1 ''Business_Category'' = None then Inl ValueError else
           case df_get df1 score_column of Inl e \<Rightarrow> Inl e | Inr sc \<Rightarrow>
           let cats = map (\<lambda>(n, s). if n then ''Nuevo''
                                      else categorize (business_categories self) s)
                        (zip is_new (astype_str other sc))
           in Inr (df_drop (df_set df1 ''Business_Category'' (StrCol cats)) ''IsNew''))"

text \<open>\<^verbatim>\<open>process_rfm\<close>: the final score column, then the categories, then the cutoff date.\<close>

definition process_rfm ::
  "(column \<Rightarrow> string list) \<Rightarrow> RFMProcessor \<Rightarrow> frame \<Rightarrow> error + frame" where
  "process_rfm other self df =
     (case calculate_final_score other self df of Inl e \<Rightarrow> Inl e | Inr final \<Rightarrow>
      case assign_business_categories other self (df_set df ''Final_Score'' final) ''Final_Score'' of
        Inl e \<Rightarrow> Inl e
      | Inr df2 \<Rightarrow>
          (case end_date self of
             None \<Rightarrow> Inl AttributeError
           | Some ed \<Rightarrow>
               Inr (df_set df2 ''CutoffDate''
                      (DateCol (replicate (col_length final) (Some ed))))))"

section \<open>Library routines used by rfm\_processing.py\<close>

text \<open>
  pandas, NumPy and jenkspy are not part of the repository. Their routines are written
  out below as far as their documented behaviour goes. Two things are left to a
  parameter: the classes that \<^verbatim>\<open>jenkspy.jenks_breaks\<close> finds in a sample that is not
  empty, and what \<^verbatim>\<open>np.percentile\<close> returns when it is given an empty sample and an
  empty list of percentages (whether the sample is touched at all then depends on its
  element type).
\<close>

record numeric_lib =
  percentiles_of_empty :: "error + float list"
  jenks_breaks :: "real list \<Rightarrow> int \<Rightarrow> error + float list"

text \<open>The non-null cells of a numeric column, in order.\<close>

fun present :: "float list \<Rightarrow> real list" where
  "present [] = []"
| "present (None # xs) = present xs"
| "present (Some x # xs) = x # present xs"

text \<open>\<^verbatim>\<open>Series.min()\<close>, \<^verbatim>\<open>Series.max()\<close>: nulls are skipped; NaN when nothing is left.\<close>

definition series_min :: "float list \<Rightarrow> float" where
  "series_min xs = (let ys = present xs in if ys = [] then None else Some (Min (set ys)))"

definition series_max :: "float list \<Rightarrow> float" where
  "series_max xs = (let ys = present xs in if ys = [] then None else Some (Max (set ys)))"

text \<open>
  The quantile with linear interpolation (the default of \<^verbatim>\<open>Series.quantile\<close> and of
  \<^verbatim>\<open>np.percentile\<close>) of a non-empty sample, for \<open>0 \<le> q \<le> 1\<close>: the position
  \<open>q (n - 1)\<close> in the sorted sample, interpolated between its two neighbours.
\<close>

definition lerp_quantile :: "real list \<Rightarrow> real \<Rightarrow> real" where
  "lerp_quantile ys q =
     (let s = sort ys;
          n = length s;
          pos = q * real (n - 1);
          lo = nat \<lfloor>pos\<rfloor>;
          hi = min (lo + 1) (n - 1)
      in s ! lo + (pos - real lo) * (s ! hi - s ! lo))"

definition series_quantile :: "float list \<Rightarrow> real \<Rightarrow> float" where
  "series_quantile xs q =
     (let ys = present xs in if ys = [] then None else Some (lerp_quantile ys q))"

definition series_mean :: "float list \<Rightarrow> float" where
  "series_mean xs =
     (let ys = present xs in
      if ys = [] then None else Some (sum_list ys / real (length ys)))"

text \<open>\<^verbatim>\<open>Series.std()\<close>: the sample standard deviation (\<^verbatim>\<open>ddof=1\<close>), NaN below two values.\<close>

definition series_std :: "float list \<Rightarrow> float" where
  "series_std xs =
     (let ys = present xs; n = length ys; m = sum_list ys / real n in
      if n < 2 then None
      else Some (sqrt (sum_list (map (\<lambda>y. (y - m)\<^sup>2) ys) / real (n - 1))))"

text \<open>
  \<^verbatim>\<open>np.percentile(a, q)\<close> for one percentage: the range of \<open>q\<close> is checked first; an
  empty sample has no element to interpolate between, and reading one raises IndexError;
  a NaN in the sample makes the result NaN.
\<close>

definition np_percentile :: "numeric_lib \<Rightarrow> float list \<Rightarrow> real \<Rightarrow> error + float" where
  "np_percentile lib xs q =
     (if \<not> (0 \<le> q \<and> q \<le> 100) then Inl ValueError
      else if xs = [] then Inl IndexError
      else if None \<in> set xs then Inr None
      else Inr (Some (lerp_quantile (present xs) (q / 100))))"

text \<open>
  \<^verbatim>\<open>np.percentile(a, qs)\<close> for an array of percentages: one result per percentage,
  after the same checks.
\<close>

definition np_percentiles :: "numeric_lib \<Rightarrow> float list \<Rightarrow> real list \<Rightarrow> error + float list" where
  "np_percentiles lib xs qs =
     (if \<not> list_all (\<lambda>q. 0 \<le> q \<and> q \<le> 100) qs then Inl ValueError
      else if xs = [] then (if qs = [] then percentiles_of_empty lib else Inl IndexError)
      else if None \<in> set xs then Inr (map (\<lambda>q. None) qs)
      else Inr (map (\<lambda>q. Some (lerp_quantile (present xs) (q / 100))) qs))"

text \<open>
  \<^verbatim>\<open>jenkspy.jenks_breaks(values, n_classes)\<close>: the number of classes is checked against
  the number of values first, and an empty sample has too few values for any number of
  classes (ValueError). The classes of other samples are the parameter's.
\<close>

definition jenkspy_jenks_breaks ::
  "numeric_lib \<Rightarrow> real list \<Rightarrow> int \<Rightarrow> error + float list" where
  "jenkspy_jenks_breaks lib values n_classes =
     (if values = [] then Inl ValueError else jenks_breaks lib values n_classes)"

text \<open>The results of a list of calls, or the first exception.\<close>

fun collect :: "(error + 'a) list \<Rightarrow> error + 'a list" where
  "collect [] = Inr []"
| "collect (Inl e # rs) = Inl e"
| "collect (Inr x # rs) = (case collect rs of Inl e \<Rightarrow> Inl e | Inr xs \<Rightarrow> Inr (x # xs))"

text \<open>
  \<^verbatim>\<open>np.linspace(0, 100, n + 1)[1:-1]\<close>: the interior points \<open>100 i / n\<close>,
  \<open>0 < i < n\<close>; a negative number of samples is a ValueError.
\<close>

definition linspace_interior :: "int \<Rightarrow> error + real list" where
  "linspace_interior n =
     (if n + 1 < 0 then Inl ValueError
      else Inr (map (\<lambda>i. 100 * real i / real_of_int n) [1 ..< nat n]))"

text \<open>
  \<^verbatim>\<open>np.digitize(x, bins, right=False)\<close>. The bins must be monotonic: NumPy skips the
  leading run of equal edges, takes the direction from the next edge and then refuses
  any step against it (comparisons with NaN are false).
\<close>

fun no_step_down :: "float list \<Rightarrow> bool" where
  "no_step_down (a # b # r) = (\<not> flt b a \<and> no_step_down (b # r))"
| "no_step_down _ = True"

fun no_step_up :: "float list \<Rightarrow> bool" where
  "no_step_up (a # b # r) = (\<not> flt a b \<and> no_step_up (b # r))"
| "no_step_up _ = True"

definition check_monotonic :: "float list \<Rightarrow> int" where
  "check_monotonic bins =
     (case bins of
        [] \<Rightarrow> 1
      | a0 # rest \<Rightarrow>
          (case dropWhile (\<lambda>a. feq a a0) rest of
             [] \<Rightarrow> 1
           | nxt # others \<Rightarrow>
               if flt a0 nxt then (if no_step_down (nxt # others) then 1 else 0)
               else (if no_step_up (nxt # others) then - 1 else 0)))"

text \<open>
  The order of \<^verbatim>\<open>np.searchsorted\<close>: NaN sorts after every number. On sorted bins
  \<^verbatim>\<open>searchsorted(bins, x, side='right')\<close> is the number of edges that are not above
  \<open>x\<close>; NumPy promises nothing for bins that are not sorted.
\<close>

fun nan_less :: "float \<Rightarrow> float \<Rightarrow> bool" where
  "nan_less (Some x) (Some y) = (x < y)"
| "nan_less (Some x) None = True"
| "nan_less None _ = False"

definition searchsorted_right :: "float list \<Rightarrow> float \<Rightarrow> int" where
  "searchsorted_right bins x = int (length (filter (\<lambda>b. \<not> nan_less x b) bins))"

definition np_digitize :: "float list \<Rightarrow> float list \<Rightarrow> error + int list" where
  "np_digitize xs bins =
     (let mono = check_monotonic bins in
      if mono = 0 then Inl ValueError
      else if mono = - 1 then
        Inr (map (\<lambda>x. int (length bins) - searchsorted_right (rev bins) x) xs)
      else Inr (map (searchsorted_right bins) xs))"

text \<open>\<^verbatim>\<open>np.clip(a, a_min, a_max)\<close> is \<^verbatim>\<open>minimum(a_max, maximum(a, a_min))\<close>.\<close>

definition np_clip :: "int \<Rightarrow> int \<Rightarrow> int \<Rightarrow> int" where
  "np_clip a a_min a_max = min a_max (max a a_min)"

text \<open>\<^verbatim>\<open>str.lower()\<close> on ASCII letters.\<close>

definition lower_char :: "char \<Rightarrow> char" where
  "lower_char c =
     (if 65 \<le> (of_char c :: nat) \<and> (of_char c :: nat) \<le> 90
      then char_of ((of_char c :: nat) + 32) else c)"

definition str_lower :: "string \<Rightarrow> string" where
  "str_lower s = map lower_char s"

section \<open>rfm\_processing.py: class RFMProcessing\<close>

text \<open>
  One entry of \<^verbatim>\<open>config["variables"]\<close>. A key read with \<^verbatim>\<open>var_config[...]\<close> is
  \<open>None\<close> when absent (KeyError); a key read with \<^verbatim>\<open>.get(key, default)\<close> is \<open>None\<close>
  when absent (the default applies).
\<close>

record var_config =
  outlier_method :: "string option"
  iqr_factor :: "real option"
  std_dev_factor :: "real option"
  percentile_lower :: "real option"
  percentile_upper :: "real option"
  breaks_method :: "string option"

text \<open>
  The processor: \<^verbatim>\<open>global_settings.num_categories\<close>, the three keys of
  \<^verbatim>\<open>global_settings.score_range\<close> (integers, all four present in the YAML) and the
  \<^verbatim>\<open>variables\<close> dict in declaration order.
\<close>

record RFMProcessing =
  num_categories :: int
  score_min :: int
  score_max :: int
  score_step :: int
  variables_config :: "(string \<times> var_config) list"

definition eps :: real where
  "eps = 0.001"

text \<open>\<^verbatim>\<open>df[column]\<close> as numbers; the statistics below need a numeric column.\<close>

definition numeric_col :: "frame \<Rightarrow> string \<Rightarrow> error + float list" where
  "numeric_col df column =
     (case df_get df column of Inl e \<Rightarrow> Inl e | Inr c \<Rightarrow> as_floats c)"

text \<open>
  \<^verbatim>\<open>calculate_outliers_limits\<close> returns \<^verbatim>\<open>(LI, LS, spread, min_value, max_value)\<close>;
  the third component is Python's \<^verbatim>\<open>None\<close> for the percentile method.
\<close>

definition calculate_outliers_limits ::
  "numeric_lib \<Rightarrow> RFMProcessing \<Rightarrow> frame \<Rightarrow> string
     \<Rightarrow> error + (float \<times> float \<times> float option \<times> float \<times> float)" where
  "calculate_outliers_limits lib self df column =
     (case map_of (variables_config self) column of
        None \<Rightarrow> Inl KeyError
      | Some var_config \<Rightarrow>
     (case numeric_col df column of
        Inl e \<Rightarrow> Inl e
      | Inr xs \<Rightarrow>
     (let min_value = series_min xs;
          max_value = series_max xs
      in case outlier_method var_config of
           None \<Rightarrow> Inl KeyError
         | Some method \<Rightarrow>
             if method = ''IQR'' then
               (let Q1 = series_quantile xs 0.25;
                    Q3 = series_quantile xs 0.75;
                    IQR_value = fsub Q3 Q1;
                    IQR_factor = (case iqr_factor var_config of None \<Rightarrow> 1.5 | Some f \<Rightarrow> f);
                    LI = fsub Q1 (fmul (Some IQR_factor) IQR_value);
                    LS = fadd Q3 (fmul (Some IQR_factor) IQR_value)
                in Inr (LI, LS, Some IQR_value, min_value, max_value))
             else if method = ''std_dev'' then
               (let mean_value = series_mean xs;
                    std_dev = series_std xs;
                    std_dev_factor = (case std_dev_factor var_config of None \<Rightarrow> 2 | Some k \<Rightarrow> k);
                    LI = fsub mean_value (fmul (Some std_dev_factor) std_dev);
                    LS = fadd mean_value (fmul (Some std_dev_factor) std_dev)
                in Inr (LI, LS, Some std_dev, min_value, max_value))
             else if method = ''percentiles'' then
               (let lower_percentile = (case percentile_lower var_config of None \<Rightarrow> 5 | Some p \<Rightarrow> p);
                    upper_percentile = (case percentile_upper var_config of None \<Rightarrow> 95 | Some p \<Rightarrow> p)
                in case np_percentile lib xs lower_percentile of
                     Inl e \<Rightarrow> Inl e
                   | Inr LI \<Rightarrow>
                       (case np_percentile lib xs upper_percentile of
                          Inl e \<Rightarrow> Inl e
                        | Inr LS \<Rightarrow> Inr (LI, LS, None, min_value, max_value)))
             else Inl ValueError)))"

text \<open>
  The loop over adjacent ranges: where the upper bound of a range reaches the lower
  bound of the next one, it is lowered by 0.001. A step changes only the upper bound of
  the range it stands on, which no later step reads.
\<close>

fun shrink_overlaps :: "(float \<times> float) list \<Rightarrow> (float \<times> float) list" where
  "shrink_overlaps ((l1, u1) # (l2, u2) # rest) =
     (if fle l2 u1 then (l1, fsub u1 (Some eps)) else (l1, u1))
       # shrink_overlaps ((l2, u2) # rest)"
| "shrink_overlaps rs = rs"

text \<open>
  The tail common to both methods: the two outer cut-points around the interior ones,
  the ranges between consecutive cut-points, and the loop above.
\<close>

definition make_breaks ::
  "float \<Rightarrow> float \<Rightarrow> float list \<Rightarrow> float list \<times> (float \<times> float) list" where
  "make_breaks min_value max_value interior =
     (let breaks = fsub min_value (Some eps) # interior @ [fadd max_value (Some eps)];
          break_ranges = zip breaks (tl breaks)
      in (breaks, shrink_overlaps break_ranges))"

text \<open>The rows kept by the filter on \<^verbatim>\<open>[LI, LS]\<close> and \<^verbatim>\<open>notnull()\<close>.\<close>

definition df_filtered :: "float \<Rightarrow> float \<Rightarrow> float list \<Rightarrow> float list" where
  "df_filtered LI LS xs = filter (\<lambda>x. fle LI x \<and> fle x LS \<and> x \<noteq> None) xs"

definition calculate_breaks ::
  "numeric_lib \<Rightarrow> RFMProcessing \<Rightarrow> frame \<Rightarrow> string
     \<Rightarrow> error + (float list \<times> (float \<times> float) list)" where
  "calculate_breaks lib self df column =
     (case map_of (variables_config self) column of
        None \<Rightarrow> Inl KeyError
      | Some var_config \<Rightarrow>
     (case calculate_outliers_limits lib self df column of
        Inl e \<Rightarrow> Inl e
      | Inr (LI, LS, spread, min_value, max_value) \<Rightarrow>
     (case numeric_col df column of
        Inl e \<Rightarrow> Inl e
      | Inr xs \<Rightarrow>
     (let filtered = df_filtered LI LS xs
      in case breaks_method var_config of
           None \<Rightarrow> Inl KeyError
         | Some method \<Rightarrow>
             if method = ''percentiles'' then
               (case linspace_interior (num_categories self) of
                  Inl e \<Rightarrow> Inl e
                | Inr percentiles \<Rightarrow>
                    (case np_percentiles lib filtered percentiles of
                       Inl e \<Rightarrow> Inl e
                     | Inr interior \<Rightarrow> Inr (make_breaks min_value max_value interior)))
             else if method = ''jenks'' then
               (case jenkspy_jenks_breaks lib (present filtered) (num_categories self) of
                  Inl e \<Rightarrow> Inl e
                | Inr bs \<Rightarrow> Inr (make_breaks min_value max_value (butlast (tl bs))))
             else Inl ValueError))))"

text \<open>
  \<^verbatim>\<open>get_range_for_value\<close>: the first range with \<^verbatim>\<open>lower <= value < upper\<close>; after
  the loop, \<^verbatim>\<open>break_ranges[-1]\<close> (IndexError on an empty list) is returned when the
  value equals its upper bound.
\<close>

fun scan_ranges :: "float \<Rightarrow> (float \<times> float) list \<Rightarrow> (float \<times> float) option" where
  "scan_ranges v [] = None"
| "scan_ranges v ((lower, upper) # rest) =
     (if fle lower v \<and> flt v upper then Some (lower, upper) else scan_ranges v rest)"

definition get_range_for_value ::
  "float \<Rightarrow> (float \<times> float) list \<Rightarrow> error + (float \<times> float) option" where
  "get_range_for_value v break_ranges =
     (case scan_ranges v break_ranges of
        Some r \<Rightarrow> Inr (Some r)
      | None \<Rightarrow>
          if break_ranges = [] then Inl IndexError
          else if feq v (snd (last break_ranges)) then Inr (Some (last break_ranges))
          else Inr None)"

text \<open>
  The bucket indices are an int64 NumPy array (the result of \<^verbatim>\<open>np.digitize\<close>), and
  so is everything computed from them with the configured integers: each operation of
  the array arithmetic wraps around modulo \<open>2 ^ 64\<close> without an exception.
\<close>

definition wrap_int64 :: "int \<Rightarrow> int" where
  "wrap_int64 x = (x + 2 ^ 63) mod 2 ^ 64 - 2 ^ 63"

definition is_int64 :: "int \<Rightarrow> bool" where
  "is_int64 x \<longleftrightarrow> - (2 ^ 63) \<le> x \<and> x < 2 ^ 63"

text \<open>
  The four integers of the configuration enter the array arithmetic as int64 scalars.
  That holds for the integers that fit in 64 bits; what NumPy does with a larger Python
  integer differs between its releases and is not modelled, and the theorems on scores
  are about the configurations below.
\<close>

definition int64_config :: "RFMProcessing \<Rightarrow> bool" where
  "int64_config self \<longleftrightarrow>
     is_int64 (num_categories self) \<and> is_int64 (score_min self)
     \<and> is_int64 (score_max self) \<and> is_int64 (score_step self)"

text \<open>
  The score of a clipped bucket index, in standard or inverse order:
  \<^verbatim>\<open>score_min + ((scores - score_min) * score_step)\<close>, or the same subtracted from
  \<^verbatim>\<open>score_max\<close>, three array operations each.
\<close>

definition to_score :: "RFMProcessing \<Rightarrow> bool \<Rightarrow> int \<Rightarrow> int" where
  "to_score self inverse_order s =
     (let steps = wrap_int64 (wrap_int64 (s - score_min self) * score_step self)
      in if inverse_order then wrap_int64 (score_max self - steps)
         else wrap_int64 (score_min self + steps))"

text \<open>
  The score of the last bucket, computed without wrap-around, fits in 64 bits. For a step
  that is not negative the scores of all buckets then lie between the score of the first
  bucket (\<^verbatim>\<open>score_min\<close>, in inverse order \<^verbatim>\<open>score_max\<close>) and that one.
\<close>

definition no_overflow :: "RFMProcessing \<Rightarrow> bool \<Rightarrow> bool" where
  "no_overflow self inverse_order \<longleftrightarrow>
     (if inverse_order
      then is_int64 (score_max self - (num_categories self - score_min self) * score_step self)
      else is_int64 (score_min self + (num_categories self - score_min self) * score_step self))"

definition calculate_score ::
  "RFMProcessing \<Rightarrow> frame \<Rightarrow> string \<Rightarrow> float list \<Rightarrow> (float \<times> float) list \<Rightarrow> bool
     \<Rightarrow> error + (int list \<times> (float \<times> float) option list)" where
  "calculate_score self df column breaks break_ranges inverse_order =
     (case numeric_col df column of
        Inl e \<Rightarrow> Inl e
      | Inr xs \<Rightarrow>
     (case np_digitize xs breaks of
        Inl e \<Rightarrow> Inl e
      | Inr digitized \<Rightarrow>
     (let scores = map (\<lambda>s. np_clip s (score_min self) (num_categories self)) digitized
      in case collect (map (\<lambda>v. get_range_for_value v break_ranges) xs) of
           Inl e \<Rightarrow> Inl e
         | Inr value_ranges \<Rightarrow> Inr (map (to_score self inverse_order) scores, value_ranges))))"

text \<open>
  \<^verbatim>\<open>process_rfm_data\<close>, the loop. The body of the \<^verbatim>\<open>try\<close> for one variable, then
  the loop: an exception leaves \<^verbatim>\<open>scores_dict\<close> as it was and prints one line
  (KeyError has a message of its own).
\<close>

definition score_variable ::
  "numeric_lib \<Rightarrow> RFMProcessing \<Rightarrow> frame \<Rightarrow> string
     \<Rightarrow> error + (int list \<times> (float \<times> float) option list)" where
  "score_variable lib self rfm_data column =
     (let inverse_order = (str_lower column = ''recency'')
      in case calculate_breaks lib self rfm_data column of
           Inl e \<Rightarrow> Inl e
         | Inr (breaks, break_ranges) \<Rightarrow>
             calculate_score self rfm_data column breaks break_ranges inverse_order)"

datatype log_line = ConfigNotFound string | ProcessingError string error

fun score_loop ::
  "numeric_lib \<Rightarrow> RFMProcessing \<Rightarrow> frame \<Rightarrow> (string \<times> var_config) list
     \<Rightarrow> frame \<times> log_line list \<Rightarrow> frame \<times> log_line list" where
  "score_loop lib self rfm_data [] state = state"
| "score_loop lib self rfm_data ((column, var_config) # rest) (scores_dict, printed) =
     score_loop lib self rfm_data rest
       (case score_variable lib self rfm_data column of
          Inl e \<Rightarrow>
            (scores_dict,
             printed @ [if e = KeyError then ConfigNotFound column
                        else ProcessingError column e])
        | Inr (scores, value_ranges) \<Rightarrow>
            (df_set (df_set scores_dict (column @ ''_score'') (IntCol scores))
               (column @ ''_range'') (RangeCol value_ranges),
             printed))"

text \<open>
  The rows of a DataFrame carry labels, its index. The methods above read and write
  whole columns and never look at the labels, so a frame is modelled without them; the
  last statement of \<^verbatim>\<open>process_rfm_data\<close> does depend on them, and takes the index
  of \<^verbatim>\<open>rfm_data\<close> as a list of labels, one per row. A table made without an index
  (\<^verbatim>\<open>pd.DataFrame(scores_dict)\<close>, or the result of \<^verbatim>\<open>reset_index()\<close> at the end of
  \<^verbatim>\<open>calculate_rfm\<close>) has the default one, \<open>0, 1, ..., n - 1\<close>.
\<close>

datatype row_label = IntLabel int | StrLabel string

definition default_index :: "nat \<Rightarrow> row_label list" where
  "default_index n = map (\<lambda>i. IntLabel (int i)) [0 ..< n]"

text \<open>The number of rows of a table made from a dict of arrays of one length.\<close>

definition frame_rows :: "frame \<Rightarrow> nat" where
  "frame_rows df = (case df of [] \<Rightarrow> 0 | (name, c) # rest \<Rightarrow> col_length c)"

text \<open>
  \<^verbatim>\<open>pd.concat([left, right], axis=1)\<close> for a right-hand table with the default index.
  The columns are put side by side, and the rows are matched by label (an outer join).
  When the right-hand table has no column, or the two indexes are equal, the rows of the
  left-hand table stay as they are. Otherwise the result has a row for every label of
  either table, first those of the left-hand table and then the others; a row takes its
  left-hand cells from the left-hand row of that label and its right-hand cells from the
  right-hand row of that label, and the cells of a table without that label are null. It is
  given here by the two tables and, for each row, its label and the positions of the two
  source rows. Labels of the left-hand table that occur twice cannot be matched:
  InvalidIndexError.
\<close>

datatype concat_result =
    Side_by_side frame
  | Outer_join "(row_label \<times> nat option \<times> nat option) list" frame frame

fun position_of :: "row_label \<Rightarrow> nat \<Rightarrow> nat option" where
  "position_of (IntLabel k) m = (if 0 \<le> k \<and> k < int m then Some (nat k) else None)"
| "position_of (StrLabel l) m = None"

definition pd_concat_axis1 ::
  "row_label list \<Rightarrow> frame \<Rightarrow> frame \<Rightarrow> error + concat_result" where
  "pd_concat_axis1 index left right =
     (let m = frame_rows right in
      if right = [] \<or> index = default_index m then Inr (Side_by_side (left @ right))
      else if \<not> distinct index then Inl InvalidIndexError
      else Inr (Outer_join
                  (map (\<lambda>i. (index ! i, Some i, position_of (index ! i) m)) [0 ..< length index]
                   @ map (\<lambda>j. (IntLabel (int j), None, Some j))
                       (filter (\<lambda>j. IntLabel (int j) \<notin> set index) [0 ..< m]))
                  left right))"

text \<open>
  The whole of \<^verbatim>\<open>process_rfm_data\<close>: the loop, then the table of the scores and the
  concatenation, which stand after the loop and outside its \<^verbatim>\<open>try\<close>. The result is
  the outcome of the call together with what the loop printed.
\<close>

definition process_rfm_data ::
  "numeric_lib \<Rightarrow> RFMProcessing \<Rightarrow> row_label list \<Rightarrow> frame
     \<Rightarrow> (error + concat_result) \<times> log_line list" where
  "process_rfm_data lib self index rfm_data =
     (case score_loop lib self rfm_data (variables_config self) ([], []) of
        (scores_dict, printed) \<Rightarrow> (pd_concat_axis1 index rfm_data scores_dict, printed))"



section \<open>Example inputs\<close>

text \<open>
  A library for the examples, none of which finds classes with Jenks: that routine is
  not available in it.
\<close>

definition example_lib :: numeric_lib where
  "example_lib =
     \<lparr>percentiles_of_empty = Inl IndexError, jenks_breaks = (\<lambda>xs n. Inl LibraryError)\<rparr>"

text \<open>A variable with IQR outlier bounds (default factor) and percentile breaks.\<close>

definition iqr_percentiles :: var_config where
  "iqr_percentiles =
     \<lparr>outlier_method = Some ''IQR'', iqr_factor = None, std_dev_factor = None,
      percentile_lower = None, percentile_upper = None,
      breaks_method = Some ''percentiles''\<rparr>"

text \<open>Scenario A of the specification: ten values, five categories, scores 1 to 5.\<close>

definition scenario_A :: RFMProcessing where
  "scenario_A =
     \<lparr>num_categories = 5, score_min = 1, score_max = 5, score_step = 1,
      variables_config = [(''Monetary'', iqr_percentiles)]\<rparr>"

definition scenario_A_data :: frame where
  "scenario_A_data =
     [(''Monetary'', FloatCol (map Some [10, 20, 30, 40, 50, 60, 70, 80, 90, 100]))]"

text \<open>Four customers, two categories; the second value lies just below the median.\<close>

definition gap_example :: RFMProcessing where
  "gap_example =
     \<lparr>num_categories = 2, score_min = 1, score_max = 2, score_step = 1,
      variables_config = [(''Monetary'', iqr_percentiles)]\<rparr>"

definition gap_example_data :: frame where
  "gap_example_data = [(''Monetary'', FloatCol (map Some [1, 1.9995, 2, 3]))]"

text \<open>
  Five customers and five categories, with the scores 1 to 5 in steps of 2, and with a
  negative step.
\<close>

definition five_values_data :: frame where
  "five_values_data = [(''Monetary'', FloatCol (map Some [10, 20, 30, 40, 50]))]"


definition negative_step_example :: RFMProcessing where
  "negative_step_example =
     \<lparr>num_categories = 5, score_min = 1, score_max = 5, score_step = - 1,
      variables_config = [(''Monetary'', iqr_percentiles)]\<rparr>"


definition huge_step_example :: RFMProcessing where
  "huge_step_example =
     \<lparr>num_categories = 5, score_min = 1, score_max = 5, score_step = 2 ^ 62,
      variables_config = [(''Monetary'', iqr_percentiles)]\<rparr>"

text \<open>
  Three configured variables on a table with two of the columns: \<^verbatim>\<open>Recency\<close> has no
  column, \<^verbatim>\<open>Frequency\<close> has a breaks method that does not exist, \<^verbatim>\<open>Monetary\<close> is in
  order.
\<close>

definition two_column_data :: frame where
  "two_column_data =
     [(''Monetary'', FloatCol (map Some [10, 20, 30, 40, 50])),
      (''Frequency'', IntCol [1, 2, 3, 4, 5])]"

definition partial_example :: RFMProcessing where
  "partial_example =
     \<lparr>num_categories = 5, score_min = 1, score_max = 5, score_step = 1,
      variables_config =
        [(''Recency'', iqr_percentiles),
         (''Frequency'', iqr_percentiles\<lparr>breaks_method := Some ''quantiles''\<rparr>),
         (''Monetary'', iqr_percentiles)]\<rparr>"







section \<open>Final score\<close>

lemma str_nat_digit: "n < 10 \<Longrightarrow> str_nat n = [digit_char n]"
  by (simp add: str_nat.simps)

lemma combinacion_accented_neq:
  "combinacion_accented \<noteq> ''combinacion''"
  "combinacion_accented \<noteq> ''suma''"
  "combinacion_accented \<noteq> ''promedio''"
  by (simp_all add: combinacion_accented_def)

lemma rows3_nth:
  "length bs = length as \<Longrightarrow> length cs = length as \<Longrightarrow> i < length as \<Longrightarrow>
   rows3 as bs cs ! i = [as ! i, bs ! i, cs ! i]"
proof (induction as bs cs arbitrary: i rule: rows3.induct)
  case (1 a as b bs c cs)
  then show ?case by (cases i) simp_all
qed simp_all

lemma rows3_length:
  "length bs = length as \<Longrightarrow> length cs = length as \<Longrightarrow> length (rows3 as bs cs) = length as"
  by (induction as bs cs rule: rows3.induct) simp_all

text \<open>
  C10. A configuration without the \<^verbatim>\<open>score_method\<close> key gives the processor the
  accented default, which is none of the three method names that
  \<^verbatim>\<open>calculate_final_score\<close> compares with; so on every table the call raises
  ValueError.
\<close>

theorem default_score_method_unrecognized:
  assumes "y_score_method cfg = None"
    and "RFMProcessor_init (Inr cfg) = Inr p"
  shows "score_method p = combinacion_accented
       \<and> score_method p \<notin> {''combinacion'', ''suma'', ''promedio''}
       \<and> calculate_final_score other p df = Inl ValueError"
proof -
  have "score_method p = combinacion_accented"
    using assms
    by (auto simp: RFMProcessor_init_def init_fallback_def
        split: sum.splits prod.splits if_splits)
  then show ?thesis
    by (simp add: calculate_final_score_def combinacion_accented_neq)
qed

theorem default_score_method_unrecognized_witness:
  "y_score_method \<lparr>y_score_method = None, y_business_categories = None,
                   y_date_interval = Some ''months''\<rparr> = None
   \<and> (\<exists>p. RFMProcessor_init (Inr \<lparr>y_score_method = None, y_business_categories = None,
                   y_date_interval = Some ''months''\<rparr>) = Inr p
        \<and> calculate_final_score (\<lambda>c. []) p [] = Inl ValueError)"
proof -
  let ?cfg = "\<lparr>y_score_method = None, y_business_categories = None,
               y_date_interval = Some ''months''\<rparr>"
  let ?p = "\<lparr>score_method = combinacion_accented, business_categories = [],
             end_date = Some \<lparr>d_year = 2024, d_month = 12, d_day = 10\<rparr>\<rparr>"
  have a: "y_score_method ?cfg = None" by simp
  have b: "RFMProcessor_init (Inr ?cfg) = Inr ?p"
    by (simp add: RFMProcessor_init_def get_date_range_for_rfm_def)
  from default_score_method_unrecognized [OF a b, of "\<lambda>c. []" "[]"] a b
  show ?thesis by simp
qed

lemma str_int_digit: "0 \<le> i \<Longrightarrow> i < 10 \<Longrightarrow> str_int i = [digit_char (nat i)]"
  by (simp add: str_int_def str_nat_digit)

text \<open>
  C5. With the method \<^verbatim>\<open>'combinacion'\<close> (the spec's "combination") every row of the
  result is the textual form of its Recency score, then of its Frequency score, then
  of its Monetary score; a method that is none of the three names raises ValueError
  (the spec's ConfigurationError).
\<close>

theorem combination_concatenates:
  "(score_method p = ''combinacion''
      \<and> df_get df ''Recency_score'' = Inr r
      \<and> df_get df ''Frequency_score'' = Inr f
      \<and> df_get df ''Monetary_score'' = Inr m
      \<and> length (astype_str other f) = length (astype_str other r)
      \<and> length (astype_str other m) = length (astype_str other r)
    \<longrightarrow> (\<exists>out. calculate_final_score other p df = Inr (StrCol out)
            \<and> length out = length (astype_str other r)
            \<and> (\<forall>i < length out.
                  out ! i = astype_str other r ! i @ astype_str other f ! i
                            @ astype_str other m ! i)))
   \<and> (score_method p \<notin> {''combinacion'', ''suma'', ''promedio''}
    \<longrightarrow> calculate_final_score other p df = Inl ValueError)"
  by (auto simp: calculate_final_score_def rows3_length rows3_nth)

theorem combination_concatenates_witness:
  "calculate_final_score (\<lambda>c. [])
      \<lparr>score_method = ''combinacion'', business_categories = [], end_date = None\<rparr>
      [(''Recency_score'', IntCol [5]), (''Frequency_score'', IntCol [2]),
       (''Monetary_score'', IntCol [4])] = Inr (StrCol [''524''])
   \<and> calculate_final_score (\<lambda>c. [])
      \<lparr>score_method = ''producto'', business_categories = [], end_date = None\<rparr>
      [(''Recency_score'', IntCol [5]), (''Frequency_score'', IntCol [2]),
       (''Monetary_score'', IntCol [4])] = Inl ValueError"
proof -
  let ?df = "[(''Recency_score'', IntCol [5]), (''Frequency_score'', IntCol [2]),
       (''Monetary_score'', IntCol [4])]"
  let ?p = "\<lparr>score_method = ''combinacion'', business_categories = [], end_date = None\<rparr>"
  let ?q = "\<lparr>score_method = ''producto'', business_categories = [], end_date = None\<rparr>"
  have g: "df_get ?df ''Recency_score'' = Inr (IntCol [5])"
      "df_get ?df ''Frequency_score'' = Inr (IntCol [2])"
      "df_get ?df ''Monetary_score'' = Inr (IntCol [4])"
    by (simp_all add: df_get_def)
  from combination_concatenates [of ?p ?df "IntCol [5]" "IntCol [2]" "IntCol [4]" "\<lambda>c. []"] g
  obtain out where o: "calculate_final_score (\<lambda>c. []) ?p ?df = Inr (StrCol out)"
    "length out = 1" "out ! 0 = str_int 5 @ str_int 2 @ str_int 4"
    by auto
  have "out = [''524'']"
    using o(2,3) by (cases out) (simp_all add: str_int_digit digit_char_def)
  moreover have "calculate_final_score (\<lambda>c. []) ?q ?df = Inl ValueError"
    using combination_concatenates [of ?q ?df "IntCol [5]" "IntCol [2]" "IntCol [4]" "\<lambda>c. []"]
    by simp
  ultimately show ?thesis using o(1) by simp
qed

section \<open>Business categories\<close>

lemma categorize_find:
  "categorize bc s = (case find (\<lambda>(c, vs). s \<in> set vs) bc of
                        None \<Rightarrow> sin_categoria | Some (c, vs) \<Rightarrow> c)"
  by (induction bc s rule: categorize.induct) auto

lemma categorize_in:
  "categorize bc s = sin_categoria \<or> categorize bc s \<in> fst ` set bc"
  by (induction bc s rule: categorize.induct) auto

lemma map_of_df_set: "map_of (df_set df k c) = (map_of df)(k \<mapsto> c)"
  by (rule ext) (simp add: df_set_def AList.update_conv)

lemma map_of_df_drop: "map_of (df_drop df k) k' = (if k = k' then None else map_of df k')"
  by (simp add: df_drop_def AList.delete_conv)

lemma sin_categoria_neq_nuevo: "sin_categoria \<noteq> ''Nuevo''"
  by (simp add: sin_categoria_def)

lemma assign_business_categories_no_rows:
  assumes "end_date self = Some ed"
    and "map_of df ''MonthsWithPurchases'' = Some (IntCol [])"
    and "map_of df ''LastPurchaseDate'' = Some (DateCol dates)"
    and "map_of df score_column = Some sc"
    and "map_of df ''Business_Category'' = None"
  shows "assign_business_categories other self df score_column = Inl ValueError"
  using assms
  by (simp add: assign_business_categories_def df_get_def map_of_df_set Let_def)

text \<open>
  C6. On a table with at least one customer, with an end date configured and the three
  columns in place, the call returns, and row by row: a customer with exactly one month
  with purchases whose last purchase lies in the month of the end date is labelled
  \<^verbatim>\<open>'Nuevo'\<close> (the spec's "New") whatever the score; every other customer gets the
  first category, in declaration order, whose list holds the textual form of the score,
  or \<^verbatim>\<open>'Sin Categoria'\<close> (with its accent; the spec's "Uncategorized") when there is
  none. When no configured category is itself called \<^verbatim>\<open>'Nuevo'\<close>, the label
  \<^verbatim>\<open>'Nuevo'\<close> is given to exactly those customers. (On a table without customers
  there is nobody to label, and the call raises ValueError unless the table already has
  a \<^verbatim>\<open>Business_Category\<close> column: the lemma above.)
\<close>

theorem new_customers_and_categories:
  assumes "end_date self = Some ed"
    and "map_of df ''MonthsWithPurchases'' = Some (IntCol months)"
    and "map_of df ''LastPurchaseDate'' = Some (DateCol dates)"
    and "map_of df score_column = Some sc"
    and "score_column \<noteq> ''IsNew''"
    and "length dates = length months"
    and "length (astype_str other sc) = length months"
    and "months \<noteq> []"
  shows "\<exists>df' cats.
           assign_business_categories other self df score_column = Inr df'
         \<and> map_of df' ''Business_Category'' = Some (StrCol cats)
         \<and> length cats = length months
         \<and> (\<forall>i < length months.
              (months ! i = 1 \<and> map_option to_period_M (dates ! i) = Some (to_period_M ed)
                 \<longrightarrow> cats ! i = ''Nuevo'')
            \<and> (\<not> (months ! i = 1 \<and> map_option to_period_M (dates ! i) = Some (to_period_M ed))
                 \<longrightarrow> cats ! i =
                      (case find (\<lambda>(c, vs). astype_str other sc ! i \<in> set vs)
                              (business_categories self) of
                         None \<Rightarrow> sin_categoria
                       | Some (c, vs) \<Rightarrow> c))
            \<and> (''Nuevo'' \<notin> fst ` set (business_categories self)
                 \<longrightarrow> (cats ! i = ''Nuevo'') =
                      (months ! i = 1
                       \<and> map_option to_period_M (dates ! i) = Some (to_period_M ed))))"
proof -
  let ?is_new = "map (\<lambda>(m, p). m \<and> p = Some (to_period_M ed))
                   (zip (eq_one (IntCol months)) (map (map_option to_period_M) dates))"
  let ?cats = "map (\<lambda>(n, s). if n then ''Nuevo'' else categorize (business_categories self) s)
                 (zip ?is_new (astype_str other sc))"
  let ?df' = "df_drop (df_set (df_set df ''IsNew'' (BoolCol ?is_new))
                 ''Business_Category'' (StrCol ?cats)) ''IsNew''"
  have "dates \<noteq> []" using assms(6,8) by auto
  then have run: "assign_business_categories other self df score_column = Inr ?df'"
    using assms(1-5,8)
    by (simp add: assign_business_categories_def df_get_def map_of_df_set Let_def)
  have col: "map_of ?df' ''Business_Category'' = Some (StrCol ?cats)"
    by (simp add: map_of_df_drop map_of_df_set)
  have len: "length ?cats = length months"
    using assms(6,7) by simp
  have rows: "?cats ! i = (if months ! i = 1
                 \<and> map_option to_period_M (dates ! i) = Some (to_period_M ed)
               then ''Nuevo'' else categorize (business_categories self) (astype_str other sc ! i))"
    if "i < length months" for i
    using that assms(6,7) by simp
  have neq: "categorize (business_categories self) s \<noteq> ''Nuevo''"
    if "''Nuevo'' \<notin> fst ` set (business_categories self)" for s
    using that categorize_in [of "business_categories self" s] sin_categoria_neq_nuevo
    by (metis)
  show ?thesis
    apply (rule exI [of _ ?df'], rule exI [of _ ?cats])
    apply (intro conjI allI impI run col len)
    using rows neq by (auto simp: categorize_find)
qed

lemma list3_nth: "length xs = 3 \<Longrightarrow> xs = [xs ! 0, xs ! 1, xs ! 2]"
  by (cases xs; cases "tl xs"; cases "tl (tl xs)") (auto simp: numeral_3_eq_3 numeral_2_eq_2)

theorem new_customers_and_categories_witness:
  "\<exists>df' cats.
     assign_business_categories (\<lambda>c. [])
       \<lparr>score_method = ''combinacion'',
         business_categories = [(''Champions'', [''555'', ''554'']), (''Loyal'', [''554'', ''444''])],
         end_date = Some \<lparr>d_year = 2024, d_month = 12, d_day = 10\<rparr>\<rparr>
       [(''MonthsWithPurchases'', IntCol [1, 1, 3]),
        (''LastPurchaseDate'', DateCol [Some \<lparr>d_year = 2024, d_month = 12, d_day = 3\<rparr>,
                                       Some \<lparr>d_year = 2024, d_month = 11, d_day = 20\<rparr>,
                                       Some \<lparr>d_year = 2024, d_month = 12, d_day = 5\<rparr>]),
        (''Final_Score'', StrCol [''555'', ''554'', ''111''])]
       ''Final_Score'' = Inr df'
   \<and> map_of df' ''Business_Category'' = Some (StrCol cats)
   \<and> cats = [''Nuevo'', ''Champions'', sin_categoria]"
proof -
  let ?self = "\<lparr>score_method = ''combinacion'',
         business_categories = [(''Champions'', [''555'', ''554'']), (''Loyal'', [''554'', ''444''])],
         end_date = Some \<lparr>d_year = 2024, d_month = 12, d_day = 10\<rparr>\<rparr>"
  let ?months = "[1, 1, 3] :: int list"
  let ?dates = "[Some \<lparr>d_year = 2024, d_month = 12, d_day = 3\<rparr>,
                 Some \<lparr>d_year = 2024, d_month = 11, d_day = 20\<rparr>,
                 Some \<lparr>d_year = 2024, d_month = 12, d_day = 5\<rparr>]"
  let ?sc = "StrCol [''555'', ''554'', ''111'']"
  let ?df = "[(''MonthsWithPurchases'', IntCol ?months), (''LastPurchaseDate'', DateCol ?dates),
              (''Final_Score'', ?sc)]"
  have h: "end_date ?self = Some \<lparr>d_year = 2024, d_month = 12, d_day = 10\<rparr>"
    "map_of ?df ''MonthsWithPurchases'' = Some (IntCol ?months)"
    "map_of ?df ''LastPurchaseDate'' = Some (DateCol ?dates)"
    "map_of ?df ''Final_Score'' = Some ?sc"
    "''Final_Score'' \<noteq> ''IsNew''"
    "length ?dates = length ?months"
    "length (astype_str (\<lambda>c. []) ?sc) = length ?months"
    "?months \<noteq> []"
    by simp_all
  from new_customers_and_categories [OF h]
  obtain df' cats where r:
    "assign_business_categories (\<lambda>c. []) ?self ?df ''Final_Score'' = Inr df'"
    "map_of df' ''Business_Category'' = Some (StrCol cats)"
    "length cats = 3"
    and rows: "\<forall>i < length ?months.
              (?months ! i = 1 \<and> map_option to_period_M (?dates ! i)
                  = Some (to_period_M \<lparr>d_year = 2024, d_month = 12, d_day = 10\<rparr>)
                 \<longrightarrow> cats ! i = ''Nuevo'')
            \<and> (\<not> (?months ! i = 1 \<and> map_option to_period_M (?dates ! i)
                  = Some (to_period_M \<lparr>d_year = 2024, d_month = 12, d_day = 10\<rparr>))
                 \<longrightarrow> cats ! i =
                      (case find (\<lambda>(c, vs). astype_str (\<lambda>c. []) ?sc ! i \<in> set vs)
                              (business_categories ?self) of
                         None \<Rightarrow> sin_categoria
                       | Some (c, vs) \<Rightarrow> c))"
    by auto
  have "cats ! 0 = ''Nuevo''"
    using rows [rule_format, of 0] by (simp add: to_period_M_def)
  moreover have "cats ! 1 = ''Champions''"
    using rows [rule_format, of 1] by (simp add: to_period_M_def)
  moreover have "cats ! 2 = sin_categoria"
    using rows [rule_format, of 2] by (simp add: to_period_M_def)
  ultimately have "cats = [''Nuevo'', ''Champions'', sin_categoria]"
    using list3_nth [OF r(3)] by simp
  with r show ?thesis by blast
qed

section \<open>Cut-points and ranges\<close>

lemma shrink_overlaps_length: "length (shrink_overlaps rs) = length rs"
  by (induction rs rule: shrink_overlaps.induct) simp_all

text \<open>Ranges of finite cut-points, by index.\<close>

lemma shrink_zip_nth:
  "Suc i < length bs \<Longrightarrow>
   shrink_overlaps (zip (map Some bs) (tl (map Some bs))) ! i =
     (Some (bs ! i), Some (if Suc (Suc i) < length bs then bs ! Suc i - eps else bs ! Suc i))"
proof (induction bs arbitrary: i rule: induct_list012)
  case (3 x y zs)
  show ?case
  proof (cases zs)
    case Nil
    with 3 show ?thesis by simp
  next
    case (Cons z zs')
    show ?thesis
    proof (cases i)
      case 0
      with Cons show ?thesis by simp
    next
      case (Suc k)
      with 3 Cons show ?thesis by simp
    qed
  qed
qed simp_all

lemma make_breaks_finite:
  assumes "make_breaks mn mx interior = (breaks, ranges)" and "None \<notin> set breaks"
  shows "\<exists>a b ys. mn = Some a \<and> mx = Some b \<and> interior = map Some ys
           \<and> breaks = map Some ((a - eps) # ys @ [b + eps])
           \<and> ranges = shrink_overlaps (zip breaks (tl breaks))"
proof -
  from assms have b: "breaks = fsub mn (Some eps) # interior @ [fadd mx (Some eps)]"
    and r: "ranges = shrink_overlaps (zip breaks (tl breaks))"
    by (auto simp: make_breaks_def Let_def)
  from b assms(2) obtain a where a: "mn = Some a" by (cases mn) auto
  from b assms(2) obtain c where c: "mx = Some c" by (cases mx) auto
  from b assms(2) have "None \<notin> set interior" by auto
  then have "interior = map Some (map the interior)"
    by (induction interior) auto
  then obtain ys where "interior = map Some ys" ..
  with a c b r show ?thesis by auto
qed

lemma limits_min_max:
  assumes "calculate_outliers_limits lib self df column = Inr (LI, LS, sp, mn, mx)"
  shows "\<exists>xs. numeric_col df column = Inr xs \<and> mn = series_min xs \<and> mx = series_max xs"
  using assms
  by (auto simp: calculate_outliers_limits_def Let_def
      split: option.splits sum.splits if_splits)

lemma calculate_breaks_make:
  assumes "calculate_breaks lib self df column = Inr (breaks, ranges)"
  shows "\<exists>xs interior. numeric_col df column = Inr xs
           \<and> make_breaks (series_min xs) (series_max xs) interior = (breaks, ranges)"
proof -
  from assms obtain LI LS sp mn mx xs interior where
    l: "calculate_outliers_limits lib self df column = Inr (LI, LS, sp, mn, mx)"
    and x: "numeric_col df column = Inr xs"
    and m: "make_breaks mn mx interior = (breaks, ranges)"
    by (auto simp: calculate_breaks_def Let_def
        split: option.splits sum.splits if_splits prod.splits)
  from limits_min_max [OF l] x have "mn = series_min xs" "mx = series_max xs" by auto
  with x m show ?thesis by auto
qed

lemma breaks_finite_repr:
  assumes "calculate_breaks lib self df column = Inr (breaks, ranges)"
    and "None \<notin> set breaks"
  shows "\<exists>bs. breaks = map Some bs \<and> 2 \<le> length bs \<and> Suc (length ranges) = length bs
          \<and> (\<forall>i. Suc i < length bs \<longrightarrow>
                 ranges ! i = (Some (bs ! i), Some (if Suc (Suc i) < length bs then bs ! Suc i - eps else bs ! Suc i)))"
proof -
  from calculate_breaks_make [OF assms(1)] obtain xs interior where
    m: "make_breaks (series_min xs) (series_max xs) interior = (breaks, ranges)"
    by auto
  from make_breaks_finite [OF m assms(2)] obtain a b ys where
    bs: "breaks = map Some ((a - eps) # ys @ [b + eps])"
    and rs: "ranges = shrink_overlaps (zip breaks (tl breaks))"
    by auto
  let ?bs = "(a - eps) # ys @ [b + eps]"
  have "Suc (length ranges) = length ?bs"
    by (simp add: rs shrink_overlaps_length bs)
  moreover have "ranges ! i = (Some (?bs ! i),
               Some (if Suc (Suc i) < length ?bs then ?bs ! Suc i - eps else ?bs ! Suc i))"
    if "Suc i < length ?bs" for i
    using shrink_zip_nth [OF that] by (simp add: rs bs)
  moreover have "2 \<le> length ?bs" by simp
  ultimately show ?thesis using bs by blast
qed

lemma bracket:
  fixes bs :: "real list"
  shows "2 \<le> length bs \<Longrightarrow> hd bs \<le> v \<Longrightarrow> v < last bs \<Longrightarrow>
   \<exists>i. Suc i < length bs \<and> bs ! i \<le> v \<and> v < bs ! Suc i"
proof (induction bs)
  case Nil
  then show ?case by simp
next
  case (Cons x bs)
  then obtain y zs where bs: "bs = y # zs" by (cases bs) auto
  show ?case
  proof (cases "v < y")
    case True
    with Cons.prems bs show ?thesis by (intro exI [of _ 0]) simp
  next
    case False
    with Cons.prems bs have ne: "zs \<noteq> []" by auto
    have "2 \<le> length bs" using bs ne by (cases zs) auto
    moreover have "hd bs \<le> v" using False bs by simp
    moreover have "v < last bs" using Cons.prems(3) bs by simp
    ultimately obtain i where "Suc i < length bs" "bs ! i \<le> v" "v < bs ! Suc i"
      using Cons.IH by blast
    then show ?thesis by (intro exI [of _ "Suc i"]) simp
  qed
qed

lemma gap_char:
  fixes bs :: "real list"
  assumes "sorted bs" "hd bs \<le> v" "v < last bs" "2 \<le> length bs"
  shows "(\<forall>i. Suc i < length bs \<longrightarrow>
            \<not> (bs ! i \<le> v \<and> v < (if Suc (Suc i) < length bs then bs ! Suc i - eps else bs ! Suc i)))
         \<longleftrightarrow> (\<exists>j. 0 < j \<and> Suc j < length bs \<and> bs ! j - eps \<le> v \<and> v < bs ! j)"
proof
  assume none: "\<forall>i. Suc i < length bs \<longrightarrow>
            \<not> (bs ! i \<le> v \<and> v < (if Suc (Suc i) < length bs then bs ! Suc i - eps else bs ! Suc i))"
  from bracket [OF assms(4,2,3)] obtain i where
    i: "Suc i < length bs" "bs ! i \<le> v" "v < bs ! Suc i" by auto
  with none have "Suc (Suc i) < length bs \<and> bs ! Suc i - eps \<le> v"
    by (auto split: if_splits simp: not_less)
  with i show "\<exists>j. 0 < j \<and> Suc j < length bs \<and> bs ! j - eps \<le> v \<and> v < bs ! j"
    by (intro exI [of _ "Suc i"]) simp
next
  assume "\<exists>j. 0 < j \<and> Suc j < length bs \<and> bs ! j - eps \<le> v \<and> v < bs ! j"
  then obtain j where j: "0 < j" "Suc j < length bs" "bs ! j - eps \<le> v" "v < bs ! j" by auto
  show "\<forall>i. Suc i < length bs \<longrightarrow>
            \<not> (bs ! i \<le> v \<and> v < (if Suc (Suc i) < length bs then bs ! Suc i - eps else bs ! Suc i))"
  proof (intro allI impI notI)
    fix i assume i: "Suc i < length bs"
      and c: "bs ! i \<le> v \<and> v < (if Suc (Suc i) < length bs then bs ! Suc i - eps else bs ! Suc i)"
    show False
    proof (cases "i < j")
      case True
      then have "Suc i \<le> j" by simp
      with j(2) assms(1) have le: "bs ! Suc i \<le> bs ! j"
        by (intro sorted_nth_mono) simp_all
      from True j(2) have "Suc (Suc i) < length bs" by simp
      with c le j(3) show False by simp
    next
      case False
      then have "j \<le> i" by simp
      with i assms(1) have "bs ! j \<le> bs ! i"
        by (intro sorted_nth_mono) simp_all
      with c j(4) show False by simp
    qed
  qed
qed

lemma gap_in_no_range:
  fixes bs :: "real list"
  assumes "sorted bs" "Suc j < length bs" "bs ! j - eps \<le> v" "v < bs ! j" "Suc i < length bs"
  shows "\<not> (bs ! i \<le> v \<and> v < (if Suc (Suc i) < length bs then bs ! Suc i - eps else bs ! Suc i))"
proof
  assume c: "bs ! i \<le> v \<and> v < (if Suc (Suc i) < length bs then bs ! Suc i - eps else bs ! Suc i)"
  show False
  proof (cases "i < j")
    case True
    then have "Suc i \<le> j" by simp
    with assms(1,2) have le: "bs ! Suc i \<le> bs ! j"
      by (intro sorted_nth_mono) simp_all
    from True assms(2) have "Suc (Suc i) < length bs" by simp
    with c le assms(3) show False by simp
  next
    case False
    then have "j \<le> i" by simp
    with assms(1,5) have "bs ! j \<le> bs ! i"
      by (intro sorted_nth_mono) simp_all
    with c assms(4) show False by simp
  qed
qed

text \<open>
  C1 (as amended). For every result of \<^verbatim>\<open>calculate_breaks\<close> whose cut-points are
  all finite (no NaN): there is one range per pair of consecutive cut-points, and range
  \<open>i\<close> starts at cut-point \<open>i\<close>; the first range starts at or below the column minimum,
  the last range ends at the last cut-point, at or above the column maximum; and every
  range ends at or below the start of the next one. Only these weak inequalities are
  stated: they also hold when the code's float64 arithmetic absorbs the 0.001 into a
  large minimum, maximum or cut-point, which the strict ones do not. The ranges do not
  cover the interval between the outer cut-points: when the cut-points are ordered, a
  value less than \<open>eps\<close> below an interior cut-point lies in no range.
\<close>

theorem break_ranges_shape:
  assumes "calculate_breaks lib self df column = Inr (breaks, ranges)"
    and "None \<notin> set breaks"
  shows "\<exists>xs mn mx.
           numeric_col df column = Inr xs
         \<and> series_min xs = Some mn \<and> series_max xs = Some mx
         \<and> 2 \<le> length breaks \<and> Suc (length ranges) = length breaks
         \<and> (\<forall>i < length ranges. fst (ranges ! i) = breaks ! i)
         \<and> fle (fst (hd ranges)) (Some mn)
         \<and> snd (last ranges) = last breaks \<and> fle (Some mx) (snd (last ranges))
         \<and> (\<forall>i. Suc i < length ranges \<longrightarrow> fle (snd (ranges ! i)) (fst (ranges ! Suc i)))
         \<and> (sorted (map the breaks) \<longrightarrow>
              (\<forall>j v. 0 < j \<and> Suc j < length breaks
                     \<and> fle (fsub (breaks ! j) (Some eps)) (Some v) \<and> flt (Some v) (breaks ! j)
                 \<longrightarrow> (\<forall>r \<in> set ranges. \<not> (fle (fst r) (Some v) \<and> flt (Some v) (snd r)))))"
proof -
  from calculate_breaks_make [OF assms(1)] obtain xs interior where
    x: "numeric_col df column = Inr xs"
    and m: "make_breaks (series_min xs) (series_max xs) interior = (breaks, ranges)"
    by auto
  from make_breaks_finite [OF m assms(2)] obtain a b ys where
    mn: "series_min xs = Some a" and mx: "series_max xs = Some b"
    and bs: "breaks = map Some ((a - eps) # ys @ [b + eps])"
    and rs: "ranges = shrink_overlaps (zip breaks (tl breaks))"
    by auto
  define cs where "cs = (a - eps) # ys @ [b + eps]"
  have bc: "breaks = map Some cs" by (simp add: bs cs_def)
  have lc: "length cs = Suc (Suc (length ys))" by (simp add: cs_def)
  have len: "Suc (length ranges) = length breaks"
    by (simp add: rs shrink_overlaps_length bs)
  then have lr: "length ranges = Suc (length ys)" by (simp add: bc lc)
  have nth: "ranges ! i = (Some (cs ! i),
               Some (if Suc (Suc i) < length cs then cs ! Suc i - eps else cs ! Suc i))"
    if "Suc i < length cs" for i
    using shrink_zip_nth [OF that] by (simp add: rs bc)
  have ne: "ranges \<noteq> []" using lr by auto
  have len2: "2 \<le> length breaks" by (simp add: bc lc)
  have firsts: "\<forall>i < length ranges. fst (ranges ! i) = breaks ! i"
  proof (intro allI impI)
    fix i assume "i < length ranges"
    then have "Suc i < length cs" by (simp add: lr lc)
    then show "fst (ranges ! i) = breaks ! i" by (simp add: nth bc)
  qed
  have "fst (hd ranges) = Some (a - eps)"
    using nth [of 0] ne by (simp add: hd_conv_nth lc cs_def)
  then have hd: "fle (fst (hd ranges)) (Some a)" by (simp add: eps_def)
  have "last ranges = ranges ! (length ys)"
    using lr ne by (simp add: last_conv_nth)
  then have lst: "snd (last ranges) = Some (b + eps)"
    using nth [of "length ys"] by (simp add: lc) (simp add: cs_def nth_append)
  have lastb: "snd (last ranges) = last breaks" by (simp add: lst bs)
  have lastge: "fle (Some b) (snd (last ranges))" by (simp add: lst eps_def)
  have step: "\<forall>i. Suc i < length ranges \<longrightarrow> fle (snd (ranges ! i)) (fst (ranges ! Suc i))"
  proof (intro allI impI)
    fix i assume "Suc i < length ranges"
    then have l: "Suc (Suc i) < length cs" by (simp add: lr lc)
    with nth [of i] nth [of "Suc i"] show "fle (snd (ranges ! i)) (fst (ranges ! Suc i))"
      by (simp add: eps_def)
  qed
  have gap: "sorted (map the breaks) \<longrightarrow>
              (\<forall>j v. 0 < j \<and> Suc j < length breaks
                     \<and> fle (fsub (breaks ! j) (Some eps)) (Some v) \<and> flt (Some v) (breaks ! j)
                 \<longrightarrow> (\<forall>r \<in> set ranges. \<not> (fle (fst r) (Some v) \<and> flt (Some v) (snd r))))"
  proof (intro impI allI)
    fix j v
    assume srt: "sorted (map the breaks)"
      and h: "0 < j \<and> Suc j < length breaks
              \<and> fle (fsub (breaks ! j) (Some eps)) (Some v) \<and> flt (Some v) (breaks ! j)"
    from srt have sc: "sorted cs" by (simp add: bc comp_def)
    from h have j: "Suc j < length cs" by (simp add: bc)
    then have "breaks ! j = Some (cs ! j)" by (simp add: bc)
    with h have lo: "cs ! j - eps \<le> v" and hi: "v < cs ! j" by simp_all
    show "\<forall>r \<in> set ranges. \<not> (fle (fst r) (Some v) \<and> flt (Some v) (snd r))"
      unfolding all_set_conv_all_nth
    proof (intro allI impI)
      fix i assume "i < length ranges"
      then have i: "Suc i < length cs" by (simp add: lr lc)
      from gap_in_no_range [OF sc j lo hi i]
      show "\<not> (fle (fst (ranges ! i)) (Some v) \<and> flt (Some v) (snd (ranges ! i)))"
        unfolding nth [OF i] by simp
    qed
  qed
  from x mn mx len2 len firsts hd lastb lastge step gap show ?thesis by blast
qed

lemmas stat_defs = series_min_def series_max_def series_quantile_def series_mean_def
  lerp_quantile_def np_percentile_def np_percentiles_def linspace_interior_def

lemmas scenario_A_defs = scenario_A_def scenario_A_data_def iqr_percentiles_def example_lib_def

lemma scenario_A_limits:
  "calculate_outliers_limits example_lib scenario_A scenario_A_data ''Monetary''
   = Inr (Some (- 35), Some 145, Some (Some 45), Some 10, Some 100)"
  by (simp add: calculate_outliers_limits_def scenario_A_defs
     numeric_col_def df_get_def stat_defs Let_def)

lemma scenario_A_breaks:
  "calculate_breaks example_lib scenario_A scenario_A_data ''Monetary''
   = Inr ([Some 9.999, Some 28, Some 46, Some 64, Some 82, Some 100.001],
          [(Some 9.999, Some 27.999), (Some 28, Some 45.999), (Some 46, Some 63.999),
           (Some 64, Some 81.999), (Some 82, Some 100.001)])"
  unfolding calculate_breaks_def scenario_A_limits
  by (simp add: scenario_A_defs
     numeric_col_def df_get_def stat_defs Let_def df_filtered_def make_breaks_def eps_def
     upt_conv_Cons)

text \<open>
  In Scenario A the value 27.9995 lies between the outer cut-points and in none of the
  five ranges: the ranges do not cover the interval without gaps.
\<close>

theorem break_ranges_gap_counterexample:
  "calculate_breaks example_lib scenario_A scenario_A_data ''Monetary''
   = Inr ([Some 9.999, Some 28, Some 46, Some 64, Some 82, Some 100.001],
          [(Some 9.999, Some 27.999), (Some 28, Some 45.999), (Some 46, Some 63.999),
           (Some 64, Some 81.999), (Some 82, Some 100.001)])
   \<and> fle (Some (10 - eps)) (Some 27.9995) \<and> fle (Some 27.9995) (Some (100 + eps))
   \<and> list_all (\<lambda>(l, u). \<not> (fle l (Some 27.9995) \<and> flt (Some 27.9995) u))
        [(Some 9.999, Some 27.999), (Some 28, Some 45.999), (Some 46, Some 63.999),
         (Some 64, Some 81.999), (Some 82, Some 100.001)]"
  by (simp add: scenario_A_breaks eps_def)

theorem break_ranges_shape_witness:
  "\<exists>breaks ranges.
     calculate_breaks example_lib scenario_A scenario_A_data ''Monetary'' = Inr (breaks, ranges)
   \<and> None \<notin> set breaks \<and> sorted (map the breaks)
   \<and> length ranges = 5
   \<and> fle (fst (hd ranges)) (Some 10) \<and> fle (Some 100) (snd (last ranges))
   \<and> fle (snd (ranges ! 0)) (fst (ranges ! 1))
   \<and> breaks ! 1 = Some 28
   \<and> (\<forall>r \<in> set ranges. \<not> (fle (fst r) (Some 27.9995) \<and> flt (Some 27.9995) (snd r)))"
proof -
  let ?B = "[Some 9.999, Some 28, Some 46, Some 64, Some 82, Some 100.001] :: float list"
  let ?R = "[(Some 9.999, Some 27.999), (Some 28, Some 45.999), (Some 46, Some 63.999),
           (Some 64, Some 81.999), (Some 82, Some 100.001)] :: (float \<times> float) list"
  have n: "None \<notin> set ?B" and s: "sorted (map the ?B)" by simp_all
  have g: "0 < (1 :: nat) \<and> Suc 1 < length ?B
           \<and> fle (fsub (?B ! 1) (Some eps)) (Some 27.9995) \<and> flt (Some 27.9995) (?B ! 1)"
    by (simp add: eps_def)
  from break_ranges_shape [OF scenario_A_breaks n]
  obtain xs mn mx where
    x: "numeric_col scenario_A_data ''Monetary'' = Inr xs"
    and m: "series_min xs = Some mn" "series_max xs = Some mx"
    and l: "Suc (length ?R) = length ?B"
    and b: "fle (fst (hd ?R)) (Some mn)" "fle (Some mx) (snd (last ?R))"
    and st: "\<forall>i. Suc i < length ?R \<longrightarrow> fle (snd (?R ! i)) (fst (?R ! Suc i))"
    and gap: "sorted (map the ?B) \<longrightarrow>
              (\<forall>j v. 0 < j \<and> Suc j < length ?B
                     \<and> fle (fsub (?B ! j) (Some eps)) (Some v) \<and> flt (Some v) (?B ! j)
                 \<longrightarrow> (\<forall>r \<in> set ?R. \<not> (fle (fst r) (Some v) \<and> flt (Some v) (snd r))))"
    by blast
  from x have "xs = map Some [10, 20, 30, 40, 50, 60, 70, 80, 90, 100]"
    by (simp add: numeric_col_def df_get_def scenario_A_data_def)
  with m have mm: "mn = 10" "mx = 100"
    by (simp_all add: series_min_def series_max_def)
  from gap s g have "\<forall>r \<in> set ?R. \<not> (fle (fst r) (Some 27.9995) \<and> flt (Some 27.9995) (snd r))"
    by blast
  moreover from st have "fle (snd (?R ! 0)) (fst (?R ! 1))" by simp
  ultimately show ?thesis
    using scenario_A_breaks n s b mm by simp
qed

section \<open>Range lookup\<close>

lemma scan_ranges_None:
  "scan_ranges v rs = None \<longleftrightarrow> (\<forall>r \<in> set rs. \<not> (fle (fst r) v \<and> flt v (snd r)))"
  by (induction v rs rule: scan_ranges.induct) auto

lemma scan_by_index:
  fixes bs :: "real list"
  assumes len: "Suc (length ranges) = length bs"
    and nth: "\<And>i. Suc i < length bs \<Longrightarrow>
                 ranges ! i = (Some (bs ! i),
                   Some (if Suc (Suc i) < length bs then bs ! Suc i - eps else bs ! Suc i))"
  shows "scan_ranges (Some w) ranges = None \<longleftrightarrow>
      (\<forall>i. Suc i < length bs \<longrightarrow>
         \<not> (bs ! i \<le> w \<and> w < (if Suc (Suc i) < length bs then bs ! Suc i - eps else bs ! Suc i)))"
proof -
  have idx: "i < length ranges \<longleftrightarrow> Suc i < length bs" for i
    using len by auto
  have "scan_ranges (Some w) ranges = None \<longleftrightarrow>
        (\<forall>i < length ranges. \<not> (fle (fst (ranges ! i)) (Some w) \<and> flt (Some w) (snd (ranges ! i))))"
    by (simp add: scan_ranges_None all_set_conv_all_nth)
  also have "\<dots> \<longleftrightarrow> (\<forall>i. Suc i < length bs \<longrightarrow>
         \<not> (fle (fst (ranges ! i)) (Some w) \<and> flt (Some w) (snd (ranges ! i))))"
    by (simp add: idx)
  also have "\<dots> \<longleftrightarrow> (\<forall>i. Suc i < length bs \<longrightarrow>
         \<not> (bs ! i \<le> w \<and> w < (if Suc (Suc i) < length bs then bs ! Suc i - eps else bs ! Suc i)))"
  proof (intro iffI allI impI)
    fix i assume a: "\<forall>i. Suc i < length bs \<longrightarrow>
         \<not> (fle (fst (ranges ! i)) (Some w) \<and> flt (Some w) (snd (ranges ! i)))"
      and i: "Suc i < length bs"
    from a i have "\<not> (fle (fst (ranges ! i)) (Some w) \<and> flt (Some w) (snd (ranges ! i)))"
      by blast
    then show "\<not> (bs ! i \<le> w \<and> w < (if Suc (Suc i) < length bs then bs ! Suc i - eps else bs ! Suc i))"
      unfolding nth [OF i] by simp
  next
    fix i assume a: "\<forall>i. Suc i < length bs \<longrightarrow>
         \<not> (bs ! i \<le> w \<and> w < (if Suc (Suc i) < length bs then bs ! Suc i - eps else bs ! Suc i))"
      and i: "Suc i < length bs"
    from a i have "\<not> (bs ! i \<le> w \<and> w < (if Suc (Suc i) < length bs then bs ! Suc i - eps else bs ! Suc i))"
      by blast
    then show "\<not> (fle (fst (ranges ! i)) (Some w) \<and> flt (Some w) (snd (ranges ! i)))"
      unfolding nth [OF i] by simp
  qed
  finally show ?thesis .
qed

lemma last_range_by_index:
  fixes bs :: "real list"
  assumes len2: "2 \<le> length bs"
    and len: "Suc (length ranges) = length bs"
    and nth: "\<And>i. Suc i < length bs \<Longrightarrow>
                 ranges ! i = (Some (bs ! i),
                   Some (if Suc (Suc i) < length bs then bs ! Suc i - eps else bs ! Suc i))"
  shows "last ranges = (Some (bs ! (length bs - 2)), Some (last bs))"
proof -
  from len2 obtain k where k: "length bs = Suc (Suc k)"
    by (cases bs; cases "tl bs") auto
  with len have lr: "length ranges = Suc k" by simp
  then have "ranges \<noteq> []" by auto
  then have "last ranges = ranges ! k"
    using lr by (simp add: last_conv_nth)
  also have "\<dots> = (Some (bs ! k), Some (bs ! Suc k))"
    using nth [of k] k by simp
  also have "bs ! Suc k = last bs"
    using k by (cases bs) (auto simp: last_conv_nth)
  finally show ?thesis using k by simp
qed

text \<open>
  C2 (as amended). For the ranges of a BreakSet with finite, ordered cut-points and a
  non-null value: the lookup returns (no exception); it returns \<^verbatim>\<open>None\<close> exactly
  when no range holds the value and the value is not the upper bound of the last range;
  the upper bound of the last range is assigned the last range; and a value between
  the outer cut-points gets \<^verbatim>\<open>None\<close> exactly when it lies less than \<open>eps\<close> below
  an interior cut-point, in the gap that the shrink step leaves.
\<close>

theorem range_lookup:
  assumes "calculate_breaks lib self df column = Inr (breaks, ranges)"
    and "None \<notin> set breaks"
    and "sorted (map the breaks)"
  shows "(\<exists>r. get_range_for_value (Some v) ranges = Inr r)
       \<and> (get_range_for_value (Some v) ranges = Inr None \<longleftrightarrow>
            (\<forall>r \<in> set ranges. \<not> (fle (fst r) (Some v) \<and> flt (Some v) (snd r)))
            \<and> \<not> feq (Some v) (snd (last ranges)))
       \<and> get_range_for_value (snd (last ranges)) ranges = Inr (Some (last ranges))
       \<and> (fle (hd breaks) (Some v) \<and> fle (Some v) (last breaks) \<longrightarrow>
            (get_range_for_value (Some v) ranges = Inr None \<longleftrightarrow>
             (\<exists>j. 0 < j \<and> Suc j < length breaks
                  \<and> fle (fsub (breaks ! j) (Some eps)) (Some v) \<and> flt (Some v) (breaks ! j))))"
proof -
  from breaks_finite_repr [OF assms(1,2)] obtain bs where
    bs: "breaks = map Some bs" and len2: "2 \<le> length bs"
    and len: "Suc (length ranges) = length bs"
    and nth: "\<And>i. Suc i < length bs \<Longrightarrow>
                 ranges ! i = (Some (bs ! i),
                   Some (if Suc (Suc i) < length bs then bs ! Suc i - eps else bs ! Suc i))"
    by blast
  have srt: "sorted bs" using assms(3) by (simp add: bs comp_def)
  have ne: "ranges \<noteq> []" using len len2 by auto
  have bne: "bs \<noteq> []" using len2 by auto
  note lastr = last_range_by_index [OF len2 len nth]
  have scan: "scan_ranges (Some w) ranges = None \<longleftrightarrow>
      (\<forall>i. Suc i < length bs \<longrightarrow>
         \<not> (bs ! i \<le> w \<and> w < (if Suc (Suc i) < length bs then bs ! Suc i - eps else bs ! Suc i)))"
    for w
    by (rule scan_by_index [OF len nth])
  have p1: "\<exists>r. get_range_for_value (Some v) ranges = Inr r"
    using ne by (simp add: get_range_for_value_def split: option.splits)
  have p2: "get_range_for_value (Some v) ranges = Inr None \<longleftrightarrow>
            (\<forall>r \<in> set ranges. \<not> (fle (fst r) (Some v) \<and> flt (Some v) (snd r)))
            \<and> \<not> feq (Some v) (snd (last ranges))"
  proof (cases "scan_ranges (Some v) ranges")
    case None
    then have "\<forall>r \<in> set ranges. \<not> (fle (fst r) (Some v) \<and> flt (Some v) (snd r))"
      unfolding scan_ranges_None .
    with None ne show ?thesis
      by (simp add: get_range_for_value_def)
  next
    case (Some r)
    then have "scan_ranges (Some v) ranges \<noteq> None" by simp
    then have "\<not> (\<forall>r \<in> set ranges. \<not> (fle (fst r) (Some v) \<and> flt (Some v) (snd r)))"
      unfolding scan_ranges_None .
    with Some show ?thesis
      by (simp add: get_range_for_value_def)
  qed
  have top: "scan_ranges (Some (last bs)) ranges = None"
  proof (rule scan [THEN iffD2], intro allI impI notI)
    fix i assume i: "Suc i < length bs"
      and c: "bs ! i \<le> last bs \<and>
              last bs < (if Suc (Suc i) < length bs then bs ! Suc i - eps else bs ! Suc i)"
    have "bs ! Suc i \<le> last bs"
      using i srt bne by (simp add: last_conv_nth sorted_nth_mono)
    with c show False by (cases "Suc (Suc i) < length bs") (simp_all add: eps_def)
  qed
  have p3: "get_range_for_value (snd (last ranges)) ranges = Inr (Some (last ranges))"
    using top ne by (simp add: lastr get_range_for_value_def)
  have p4: "get_range_for_value (Some v) ranges = Inr None \<longleftrightarrow>
             (\<exists>j. 0 < j \<and> Suc j < length breaks
                  \<and> fle (fsub (breaks ! j) (Some eps)) (Some v) \<and> flt (Some v) (breaks ! j))"
    if inb: "fle (hd breaks) (Some v) \<and> fle (Some v) (last breaks)"
  proof -
    from inb bne have lo: "hd bs \<le> v" and hi: "v \<le> last bs"
      by (simp_all add: bs hd_map last_map)
    have rhs: "(\<exists>j. 0 < j \<and> Suc j < length breaks
                  \<and> fle (fsub (breaks ! j) (Some eps)) (Some v) \<and> flt (Some v) (breaks ! j))
           \<longleftrightarrow> (\<exists>j. 0 < j \<and> Suc j < length bs \<and> bs ! j - eps \<le> v \<and> v < bs ! j)"
    proof (rule ex_cong1)
      fix j
      show "(0 < j \<and> Suc j < length breaks
                  \<and> fle (fsub (breaks ! j) (Some eps)) (Some v) \<and> flt (Some v) (breaks ! j))
           \<longleftrightarrow> (0 < j \<and> Suc j < length bs \<and> bs ! j - eps \<le> v \<and> v < bs ! j)"
      proof (cases "Suc j < length bs")
        case True
        then have "breaks ! j = Some (bs ! j)" by (simp add: bs)
        with True show ?thesis by (simp add: bs)
      next
        case False
        then show ?thesis by (simp add: bs)
      qed
    qed
    show ?thesis
    proof (cases "v = last bs")
      case True
      have "\<not> (\<exists>j. 0 < j \<and> Suc j < length bs \<and> bs ! j - eps \<le> v \<and> v < bs ! j)"
      proof
        assume "\<exists>j. 0 < j \<and> Suc j < length bs \<and> bs ! j - eps \<le> v \<and> v < bs ! j"
        then obtain j where j: "Suc j < length bs" "v < bs ! j" by blast
        then have "bs ! j \<le> last bs"
          using srt bne by (simp add: last_conv_nth sorted_nth_mono)
        with j True show False by simp
      qed
      moreover have "get_range_for_value (Some v) ranges \<noteq> Inr None"
        using p3 True by (simp add: lastr)
      ultimately show ?thesis using rhs by simp
    next
      case False
      with hi have lt: "v < last bs" by simp
      from False have nf: "\<not> feq (Some v) (snd (last ranges))"
        by (simp add: lastr)
      have "get_range_for_value (Some v) ranges = Inr None
            \<longleftrightarrow> scan_ranges (Some v) ranges = None"
        using ne nf by (cases "scan_ranges (Some v) ranges") (simp_all add: get_range_for_value_def)
      also have "\<dots> \<longleftrightarrow> (\<exists>j. 0 < j \<and> Suc j < length bs \<and> bs ! j - eps \<le> v \<and> v < bs ! j)"
        by (rule trans [OF scan gap_char [OF srt lo lt len2]])
      finally show ?thesis using rhs by simp
    qed
  qed
  from p1 p2 p3 p4 show ?thesis by blast
qed

lemmas gap_example_defs = gap_example_def gap_example_data_def iqr_percentiles_def example_lib_def

lemma gap_example_limits:
  "calculate_outliers_limits example_lib gap_example gap_example_data ''Monetary''
   = Inr (Some 0.9990625, Some 3.0005625, Some (Some 0.500375), Some 1, Some 3)"
  by (simp add: calculate_outliers_limits_def gap_example_defs
     numeric_col_def df_get_def stat_defs Let_def)

lemma gap_example_breaks:
  "calculate_breaks example_lib gap_example gap_example_data ''Monetary''
   = Inr ([Some 0.999, Some 1.99975, Some 3.001],
          [(Some 0.999, Some 1.99875), (Some 1.99975, Some 3.001)])"
  unfolding calculate_breaks_def gap_example_limits
  by (simp add: gap_example_defs
     numeric_col_def df_get_def stat_defs Let_def df_filtered_def make_breaks_def eps_def
     upt_conv_Cons del: not_None_eq)

lemmas score_defs = calculate_score_def np_digitize_def check_monotonic_def
  searchsorted_right_def np_clip_def to_score_def wrap_int64_def get_range_for_value_def

lemma gap_example_scores:
  "score_variable example_lib gap_example gap_example_data ''Monetary''
   = Inr ([1, 1, 2, 2],
          [Some (Some 0.999, Some 1.99875), None,
           Some (Some 1.99975, Some 3.001), Some (Some 1.99975, Some 3.001)])"
  unfolding score_variable_def gap_example_breaks
  by (simp add: gap_example_defs score_defs numeric_col_def df_get_def
      str_lower_def lower_char_def)

text \<open>
  The second customer of the example has a non-null value inside the outlier bounds and
  between the column minimum and maximum, and gets no range.
\<close>

theorem range_lookup_gap_counterexample:
  "numeric_col gap_example_data ''Monetary'' = Inr [Some 1, Some 1.9995, Some 2, Some 3]
   \<and> calculate_outliers_limits example_lib gap_example gap_example_data ''Monetary''
     = Inr (Some 0.9990625, Some 3.0005625, Some (Some 0.500375), Some 1, Some 3)
   \<and> calculate_breaks example_lib gap_example gap_example_data ''Monetary''
     = Inr ([Some 0.999, Some 1.99975, Some 3.001],
            [(Some 0.999, Some 1.99875), (Some 1.99975, Some 3.001)])
   \<and> get_range_for_value (Some 1.9995)
        [(Some 0.999, Some 1.99875), (Some 1.99975, Some 3.001)] = Inr None
   \<and> score_variable example_lib gap_example gap_example_data ''Monetary''
     = Inr ([1, 1, 2, 2],
            [Some (Some 0.999, Some 1.99875), None,
             Some (Some 1.99975, Some 3.001), Some (Some 1.99975, Some 3.001)])"
proof -
  have "numeric_col gap_example_data ''Monetary'' = Inr [Some 1, Some 1.9995, Some 2, Some 3]"
    by (simp add: numeric_col_def df_get_def gap_example_data_def)
  moreover have "get_range_for_value (Some 1.9995)
        [(Some 0.999, Some 1.99875), (Some 1.99975, Some 3.001)] = Inr None"
    by (simp add: get_range_for_value_def)
  ultimately show ?thesis
    using gap_example_limits gap_example_breaks gap_example_scores by blast
qed

theorem range_lookup_witness:
  "calculate_breaks example_lib gap_example gap_example_data ''Monetary''
     = Inr ([Some 0.999, Some 1.99975, Some 3.001],
            [(Some 0.999, Some 1.99875), (Some 1.99975, Some 3.001)])
   \<and> None \<notin> set [Some 0.999, Some 1.99975, Some (3.001 :: real)]
   \<and> sorted (map the [Some 0.999, Some 1.99975, Some (3.001 :: real)])
   \<and> fle (hd [Some 0.999, Some 1.99975, Some 3.001]) (Some 1.9995)
   \<and> fle (Some 1.9995) (last [Some 0.999, Some 1.99975, Some 3.001])
   \<and> get_range_for_value (Some 1.9995)
        [(Some 0.999, Some 1.99875), (Some 1.99975, Some 3.001)] = Inr None
   \<and> (\<exists>j. 0 < j \<and> Suc j < 3
          \<and> fle (fsub ([Some 0.999, Some 1.99975, Some 3.001] ! j) (Some eps)) (Some 1.9995)
          \<and> flt (Some 1.9995) ([Some 0.999, Some 1.99975, Some 3.001] ! j))
   \<and> get_range_for_value (Some 3.001)
        [(Some 0.999, Some 1.99875), (Some 1.99975, Some 3.001)]
      = Inr (Some (Some 1.99975, Some 3.001))"
proof -
  let ?B = "[Some 0.999, Some 1.99975, Some 3.001] :: float list"
  let ?R = "[(Some 0.999, Some 1.99875), (Some 1.99975, Some 3.001)] :: (float \<times> float) list"
  have n: "None \<notin> set ?B" by simp
  have s: "sorted (map the ?B)" by simp
  have inb: "fle (hd ?B) (Some 1.9995) \<and> fle (Some 1.9995) (last ?B)" by simp
  have none: "get_range_for_value (Some 1.9995) ?R = Inr None"
    by (simp add: get_range_for_value_def)
  from range_lookup [OF gap_example_breaks n s, of "1.9995"] inb none
  have "\<exists>j. 0 < j \<and> Suc j < length ?B
          \<and> fle (fsub (?B ! j) (Some eps)) (Some 1.9995) \<and> flt (Some 1.9995) (?B ! j)"
    and "get_range_for_value (snd (last ?R)) ?R = Inr (Some (last ?R))"
    by blast+
  with gap_example_breaks n s inb none show ?thesis by (simp add: numeral_2_eq_2)
qed

section \<open>Scores\<close>

lemma no_step_down_sorted: "sorted ys \<Longrightarrow> no_step_down (map Some ys)"
  by (induction ys rule: induct_list012) auto

lemma check_monotonic_sorted:
  assumes "sorted bs"
  shows "check_monotonic (map Some bs) = 1"
proof (cases bs)
  case Nil
  then show ?thesis by (simp add: check_monotonic_def)
next
  case bs: (Cons a0 rest)
  define D where "D = dropWhile (\<lambda>a. a = a0) rest"
  have dw: "dropWhile (\<lambda>a. feq a (Some a0)) (map Some rest) = map Some D"
    by (simp add: dropWhile_map comp_def D_def)
  have cm: "check_monotonic (map Some bs) =
      (case map Some D of
         [] \<Rightarrow> 1
       | nxt # others \<Rightarrow>
           if flt (Some a0) nxt then (if no_step_down (nxt # others) then 1 else 0)
           else (if no_step_up (nxt # others) then - 1 else 0))"
    unfolding check_monotonic_def bs by (simp only: list.map list.case dw)
  show ?thesis
  proof (cases D)
    case Nil
    with cm show ?thesis by simp
  next
    case (Cons nxt others)
    then have "nxt \<noteq> a0"
      using hd_dropWhile [of "\<lambda>a. a = a0" rest] by (auto simp: D_def)
    moreover have "nxt \<in> set rest"
      using Cons set_dropWhileD [of nxt "\<lambda>a. a = a0" rest] by (simp add: D_def)
    ultimately have lt: "a0 < nxt" using assms bs by auto
    have "sorted D"
      using assms bs by (simp add: sorted_dropWhile D_def)
    then have "no_step_down (map Some (nxt # others))"
      unfolding Cons by (rule no_step_down_sorted)
    with lt Cons cm show ?thesis by simp
  qed
qed

lemma length_filter_mono:
  "(\<And>x. x \<in> set xs \<Longrightarrow> P x \<Longrightarrow> Q x) \<Longrightarrow> length (filter P xs) \<le> length (filter Q xs)"
  by (induction xs) auto

lemma searchsorted_right_mono:
  "v1 \<le> v2 \<Longrightarrow>
   searchsorted_right (map Some bs) (Some v1) \<le> searchsorted_right (map Some bs) (Some v2)"
  unfolding searchsorted_right_def
  by (simp, rule length_filter_mono) auto

lemma np_digitize_sorted:
  "sorted bs \<Longrightarrow> np_digitize xs (map Some bs) = Inr (map (searchsorted_right (map Some bs)) xs)"
  by (simp add: np_digitize_def check_monotonic_sorted)




lemma np_clip_bounds: "lo \<le> hi \<Longrightarrow> lo \<le> np_clip a lo hi \<and> np_clip a lo hi \<le> hi"
  by (simp add: np_clip_def)

lemma np_clip_mono: "a \<le> b \<Longrightarrow> np_clip a lo hi \<le> np_clip b lo hi"
  by (auto simp: np_clip_def)

lemma finite_breaks: "None \<notin> set breaks \<Longrightarrow> breaks = map Some (map the breaks)"
  by (induction breaks) auto

lemma calculate_score_parts:
  assumes "calculate_score self df column breaks break_ranges inverse_order = Inr (scores, vrs)"
  shows "\<exists>xs buckets. numeric_col df column = Inr xs \<and> np_digitize xs breaks = Inr buckets
          \<and> collect (map (\<lambda>v. get_range_for_value v break_ranges) xs) = Inr vrs
          \<and> scores = map (\<lambda>s. to_score self inverse_order
                                 (np_clip s (score_min self) (num_categories self))) buckets"
  using assms
  by (auto simp: calculate_score_def Let_def comp_def split: sum.splits)


lemma wrap_int64_signed: "wrap_int64 x = signed_take_bit 63 x"
  by (simp add: wrap_int64_def signed_take_bit_eq_take_bit_shift take_bit_eq_mod)

lemma wrap_int64_id: "is_int64 x \<Longrightarrow> wrap_int64 x = x"
  unfolding wrap_int64_signed is_int64_def
  by (simp add: signed_take_bit_int_eq_self_iff)

text \<open>The three wrapped operations amount to one wrap of the exact result.\<close>

lemma to_score_wrap:
  "to_score self inverse_order s =
     wrap_int64 (if inverse_order then score_max self - (s - score_min self) * score_step self
                 else score_min self + (s - score_min self) * score_step self)"
proof -
  have "wrap_int64 (a + wrap_int64 (wrap_int64 k * st)) = wrap_int64 (a + k * st)" for a k st
    unfolding wrap_int64_signed
    by (metis signed_take_bit_add signed_take_bit_mult signed_take_bit_signed_take_bit min.idem)
  moreover
  have "wrap_int64 (a - wrap_int64 (wrap_int64 k * st)) = wrap_int64 (a - k * st)" for a k st
    unfolding wrap_int64_signed
    by (metis signed_take_bit_diff signed_take_bit_mult signed_take_bit_signed_take_bit min.idem)
  ultimately show ?thesis by (simp add: to_score_def Let_def)
qed




lemma to_score_mono:
  assumes "is_int64 (score_min self)" "is_int64 (score_max self)"
    and "0 \<le> score_step self" "score_min self \<le> a" "a \<le> b" "b \<le> num_categories self"
    and "no_overflow self inverse_order"
  shows "if inverse_order then to_score self inverse_order b \<le> to_score self inverse_order a
         else to_score self inverse_order a \<le> to_score self inverse_order b"
proof -
  let ?a = "(a - score_min self) * score_step self"
  let ?b = "(b - score_min self) * score_step self"
  let ?T = "(num_categories self - score_min self) * score_step self"
  have ta: "0 \<le> ?a" using assms(3,4) by simp
  have tab: "?a \<le> ?b" using assms(3,5) by (intro mult_right_mono) simp_all
  have tb: "?b \<le> ?T" using assms(3,6) by (intro mult_right_mono) simp_all
  show ?thesis
  proof (cases inverse_order)
    case True
    with assms(7) have "- (2 ^ 63) \<le> score_max self - ?T"
      by (simp add: no_overflow_def is_int64_def)
    with ta tab tb assms(2)
    have "is_int64 (score_max self - ?a)" "is_int64 (score_max self - ?b)"
      by (simp_all add: is_int64_def)
    with True tab show ?thesis by (simp add: to_score_wrap wrap_int64_id)
  next
    case False
    with assms(7) have "score_min self + ?T < 2 ^ 63"
      by (simp add: no_overflow_def is_int64_def)
    with ta tab tb assms(1)
    have "is_int64 (score_min self + ?a)" "is_int64 (score_min self + ?b)"
      by (simp_all add: is_int64_def)
    with False tab show ?thesis by (simp add: to_score_wrap wrap_int64_id)
  qed
qed

text \<open>
  C4 (as amended). For finite ordered cut-points and a configuration of 64-bit integers
  with a step that is not negative and in which the score of the last bucket does not
  overflow, the score is monotonic in the raw value: of two non-null cells of the scored
  column, the one with the smaller value has the smaller or equal score in standard
  order and the larger or equal score in inverse order.
\<close>

theorem score_monotone:
  assumes "calculate_score self df column breaks break_ranges inverse_order = Inr (scores, vrs)"
    and "None \<notin> set breaks" and "sorted (map the breaks)"
    and "int64_config self" and "0 \<le> score_step self"
    and "score_min self \<le> num_categories self \<longrightarrow> no_overflow self inverse_order"
    and "numeric_col df column = Inr xs"
    and "i < length xs" and "j < length xs"
    and "xs ! i = Some v1" and "xs ! j = Some v2" and "v1 < v2"
  shows "if inverse_order then scores ! j \<le> scores ! i else scores ! i \<le> scores ! j"
proof -
  from calculate_score_parts [OF assms(1)] assms(7) obtain buckets where
    d: "np_digitize xs breaks = Inr buckets"
    and s: "scores = map (\<lambda>s. to_score self inverse_order
                                 (np_clip s (score_min self) (num_categories self))) buckets"
    by auto
  have b: "breaks = map Some (map the breaks)" using assms(2) by (rule finite_breaks)
  have "np_digitize xs breaks = Inr (map (searchsorted_right breaks) xs)"
    using np_digitize_sorted [OF assms(3), of xs] b by simp
  with d have bk: "buckets = map (searchsorted_right breaks) xs" by simp
  let ?ci = "np_clip (buckets ! i) (score_min self) (num_categories self)"
  let ?cj = "np_clip (buckets ! j) (score_min self) (num_categories self)"
  have "searchsorted_right breaks (Some v1) \<le> searchsorted_right breaks (Some v2)"
    using searchsorted_right_mono [of v1 v2 "map the breaks"] assms(12) b by simp
  then have clip: "?ci \<le> ?cj"
    using assms(8-11) by (simp add: bk np_clip_mono)
  have lb: "length buckets = length xs" by (simp add: bk)
  have si: "scores ! i = to_score self inverse_order ?ci"
    and sj: "scores ! j = to_score self inverse_order ?cj"
    using assms(8,9) lb by (simp_all add: s)
  from assms(4) have fits: "is_int64 (score_min self)" "is_int64 (score_max self)"
    by (simp_all add: int64_config_def)
  show ?thesis
  proof (cases "score_min self \<le> num_categories self")
    case True
    then have lo: "score_min self \<le> ?ci" and hi: "?cj \<le> num_categories self"
      using np_clip_bounds by blast+
    from True assms(6) have "no_overflow self inverse_order" by simp
    from to_score_mono [OF fits assms(5) lo clip hi this]
    show ?thesis unfolding si sj .
  next
    case False
    then have "?ci = ?cj" by (simp add: np_clip_def)
    then show ?thesis unfolding si sj by simp
  qed
qed

lemmas five_values_defs = five_values_data_def iqr_percentiles_def example_lib_def

lemma five_values_col:
  "numeric_col five_values_data ''Monetary'' = Inr [Some 10, Some 20, Some 30, Some 40, Some 50]"
  by (simp add: numeric_col_def df_get_def five_values_data_def)

lemma scenario_A_col:
  "numeric_col scenario_A_data ''Monetary''
   = Inr [Some 10, Some 20, Some 30, Some 40, Some 50, Some 60, Some 70, Some 80, Some 90, Some 100]"
  by (simp add: numeric_col_def df_get_def scenario_A_data_def)

lemma five_values_breaks:
  assumes "num_categories self = 5" and "variables_config self = [(''Monetary'', iqr_percentiles)]"
  shows "calculate_breaks example_lib self five_values_data ''Monetary''
   = Inr ([Some 9.999, Some 18, Some 26, Some 34, Some 42, Some 50.001],
          [(Some 9.999, Some 17.999), (Some 18, Some 25.999), (Some 26, Some 33.999),
           (Some 34, Some 41.999), (Some 42, Some 50.001)])"
proof -
  have "calculate_outliers_limits example_lib self five_values_data ''Monetary''
        = Inr (Some (- 10), Some 70, Some (Some 20), Some 10, Some 50)"
    by (simp add: calculate_outliers_limits_def assms five_values_defs
       numeric_col_def df_get_def stat_defs Let_def)
  then show ?thesis
    unfolding calculate_breaks_def
    by (simp add: assms five_values_defs
       numeric_col_def df_get_def stat_defs Let_def df_filtered_def make_breaks_def eps_def
       upt_conv_Cons del: not_None_eq)
qed


text \<open>
  With the step \<open>- 1\<close> the scores fall as the values rise: 10 scores 1 and 20 scores 0
  in standard order.
\<close>

theorem score_monotone_counterexample:
  "numeric_col five_values_data ''Monetary'' = Inr [Some 10, Some 20, Some 30, Some 40, Some 50]
   \<and> int64_config negative_step_example
   \<and> calculate_breaks example_lib negative_step_example five_values_data ''Monetary''
   = Inr ([Some 9.999, Some 18, Some 26, Some 34, Some 42, Some 50.001],
          [(Some 9.999, Some 17.999), (Some 18, Some 25.999), (Some 26, Some 33.999),
           (Some 34, Some 41.999), (Some 42, Some 50.001)])
   \<and> calculate_score negative_step_example five_values_data ''Monetary''
        [Some 9.999, Some 18, Some 26, Some 34, Some 42, Some 50.001]
        [(Some 9.999, Some 17.999), (Some 18, Some 25.999), (Some 26, Some 33.999),
         (Some 34, Some 41.999), (Some 42, Some 50.001)] False
     = Inr ([1, 0, - 1, - 2, - 3],
            [Some (Some 9.999, Some 17.999), Some (Some 18, Some 25.999),
             Some (Some 26, Some 33.999), Some (Some 34, Some 41.999),
             Some (Some 42, Some 50.001)])
   \<and> (10 :: real) < 20 \<and> \<not> ((1 :: int) \<le> 0)"
proof -
  have "calculate_score negative_step_example five_values_data ''Monetary''
        [Some 9.999, Some 18, Some 26, Some 34, Some 42, Some 50.001]
        [(Some 9.999, Some 17.999), (Some 18, Some 25.999), (Some 26, Some 33.999),
         (Some 34, Some 41.999), (Some 42, Some 50.001)] False
     = Inr ([1, 0, - 1, - 2, - 3],
            [Some (Some 9.999, Some 17.999), Some (Some 18, Some 25.999),
             Some (Some 26, Some 33.999), Some (Some 34, Some 41.999),
             Some (Some 42, Some 50.001)])"
    unfolding calculate_score_def five_values_col
    by (simp add: negative_step_example_def score_defs)
  moreover have "int64_config negative_step_example"
    by (simp add: int64_config_def is_int64_def negative_step_example_def)
  ultimately show ?thesis
    using five_values_breaks [of negative_step_example] five_values_col
    by (simp add: negative_step_example_def)
qed

text \<open>
  With the step \<open>2 ^ 62\<close>, which is not negative, the third score wraps around: the
  values 10, 20, 30 score 1, \<open>2 ^ 62 + 1\<close> and \<open>- 2 ^ 63 + 1\<close>. The hypothesis on the
  last bucket cannot be dropped.
\<close>

lemma score_wraps_example:
  "int64_config huge_step_example \<and> 0 \<le> score_step huge_step_example
   \<and> calculate_score huge_step_example five_values_data ''Monetary''
        [Some 9.999, Some 18, Some 26, Some 34, Some 42, Some 50.001]
        [(Some 9.999, Some 17.999), (Some 18, Some 25.999), (Some 26, Some 33.999),
         (Some 34, Some 41.999), (Some 42, Some 50.001)] False
     = Inr ([1, 4611686018427387905, - 9223372036854775807, - 4611686018427387903, 1],
            [Some (Some 9.999, Some 17.999), Some (Some 18, Some 25.999),
             Some (Some 26, Some 33.999), Some (Some 34, Some 41.999),
             Some (Some 42, Some 50.001)])"
proof -
  have "calculate_score huge_step_example five_values_data ''Monetary''
        [Some 9.999, Some 18, Some 26, Some 34, Some 42, Some 50.001]
        [(Some 9.999, Some 17.999), (Some 18, Some 25.999), (Some 26, Some 33.999),
         (Some 34, Some 41.999), (Some 42, Some 50.001)] False
     = Inr ([1, 4611686018427387905, - 9223372036854775807, - 4611686018427387903, 1],
            [Some (Some 9.999, Some 17.999), Some (Some 18, Some 25.999),
             Some (Some 26, Some 33.999), Some (Some 34, Some 41.999),
             Some (Some 42, Some 50.001)])"
    unfolding calculate_score_def five_values_col
    by (simp add: huge_step_example_def score_defs)
  moreover have "int64_config huge_step_example"
    by (simp add: int64_config_def is_int64_def huge_step_example_def)
  ultimately show ?thesis by (simp add: huge_step_example_def)
qed


lemma scenario_A_scores:
  "calculate_score scenario_A scenario_A_data ''Monetary''
     [Some 9.999, Some 28, Some 46, Some 64, Some 82, Some 100.001]
     [(Some 9.999, Some 27.999), (Some 28, Some 45.999), (Some 46, Some 63.999),
      (Some 64, Some 81.999), (Some 82, Some 100.001)] inverse_order
   = Inr (if inverse_order then [5, 5, 4, 4, 3, 3, 2, 2, 1, 1]
          else [1, 1, 2, 2, 3, 3, 4, 4, 5, 5],
          [Some (Some 9.999, Some 27.999), Some (Some 9.999, Some 27.999),
           Some (Some 28, Some 45.999), Some (Some 28, Some 45.999),
           Some (Some 46, Some 63.999), Some (Some 46, Some 63.999),
           Some (Some 64, Some 81.999), Some (Some 64, Some 81.999),
           Some (Some 82, Some 100.001), Some (Some 82, Some 100.001)])"
  unfolding calculate_score_def scenario_A_col
  by (simp add: scenario_A_def score_defs)

theorem score_monotone_witness:
  "numeric_col scenario_A_data ''Monetary''
     = Inr [Some 10, Some 20, Some 30, Some 40, Some 50, Some 60, Some 70, Some 80, Some 90, Some 100]
   \<and> None \<notin> set [Some 9.999, Some 28, Some 46, Some 64, Some 82, Some (100.001 :: real)]
   \<and> sorted (map the [Some 9.999, Some 28, Some 46, Some 64, Some 82, Some (100.001 :: real)])
   \<and> int64_config scenario_A \<and> 0 \<le> score_step scenario_A
   \<and> no_overflow scenario_A False \<and> no_overflow scenario_A True \<and> (10 :: real) < 100
   \<and> (\<exists>scores vrs.
        calculate_score scenario_A scenario_A_data ''Monetary''
          [Some 9.999, Some 28, Some 46, Some 64, Some 82, Some 100.001]
          [(Some 9.999, Some 27.999), (Some 28, Some 45.999), (Some 46, Some 63.999),
           (Some 64, Some 81.999), (Some 82, Some 100.001)] False = Inr (scores, vrs)
      \<and> scores ! 0 \<le> scores ! 9)
   \<and> (\<exists>scores vrs.
        calculate_score scenario_A scenario_A_data ''Monetary''
          [Some 9.999, Some 28, Some 46, Some 64, Some 82, Some 100.001]
          [(Some 9.999, Some 27.999), (Some 28, Some 45.999), (Some 46, Some 63.999),
           (Some 64, Some 81.999), (Some 82, Some 100.001)] True = Inr (scores, vrs)
      \<and> scores ! 9 \<le> scores ! 0)"
proof -
  let ?B = "[Some 9.999, Some 28, Some 46, Some 64, Some 82, Some 100.001] :: float list"
  let ?xs = "[Some 10, Some 20, Some 30, Some 40, Some 50, Some 60, Some 70, Some 80, Some 90,
              Some 100] :: float list"
  have n: "None \<notin> set ?B" and s: "sorted (map the ?B)" by simp_all
  have f: "int64_config scenario_A"
    by (simp add: int64_config_def is_int64_def scenario_A_def)
  have st: "0 \<le> score_step scenario_A" by (simp add: scenario_A_def)
  have no: "no_overflow scenario_A inverse_order" for inverse_order
    by (simp add: no_overflow_def is_int64_def scenario_A_def)
  then have no': "score_min scenario_A \<le> num_categories scenario_A
                  \<longrightarrow> no_overflow scenario_A inverse_order" for inverse_order
    by simp
  have i: "0 < length ?xs" "9 < length ?xs" "?xs ! 0 = Some 10" "?xs ! 9 = Some 100"
    "(10 :: real) < 100"
    by simp_all
  note m = score_monotone [OF scenario_A_scores n s f st no' scenario_A_col i]
  from m [of False] m [of True] scenario_A_scores [of False] scenario_A_scores [of True]
    scenario_A_col n s f st no [of False] no [of True]
  show ?thesis by simp
qed

section \<open>The scoring pipeline\<close>












lemmas partial_example_defs = partial_example_def two_column_data_def iqr_percentiles_def
  example_lib_def

lemma partial_example_recency:
  "score_variable example_lib partial_example two_column_data ''Recency'' = Inl KeyError"
  by (simp add: score_variable_def calculate_breaks_def calculate_outliers_limits_def
      partial_example_defs numeric_col_def df_get_def)

lemma partial_example_frequency:
  "score_variable example_lib partial_example two_column_data ''Frequency'' = Inl ValueError"
proof -
  have "calculate_outliers_limits example_lib partial_example two_column_data ''Frequency''
        = Inr (Some (- 1), Some 7, Some (Some 2), Some 1, Some 5)"
    by (simp add: calculate_outliers_limits_def partial_example_defs
       numeric_col_def df_get_def stat_defs Let_def)
  then show ?thesis
    by (simp add: score_variable_def calculate_breaks_def partial_example_defs
        numeric_col_def df_get_def Let_def)
qed

lemma two_column_monetary:
  "numeric_col two_column_data ''Monetary'' = Inr [Some 10, Some 20, Some 30, Some 40, Some 50]"
  by (simp add: numeric_col_def df_get_def two_column_data_def)

lemma partial_example_monetary:
  "score_variable example_lib partial_example two_column_data ''Monetary''
   = Inr ([1, 2, 3, 4, 5],
          [Some (Some 9.999, Some 17.999), Some (Some 18, Some 25.999),
           Some (Some 26, Some 33.999), Some (Some 34, Some 41.999),
           Some (Some 42, Some 50.001)])"
proof -
  have l: "calculate_outliers_limits example_lib partial_example two_column_data ''Monetary''
        = Inr (Some (- 10), Some 70, Some (Some 20), Some 10, Some 50)"
    by (simp add: calculate_outliers_limits_def partial_example_defs
       numeric_col_def df_get_def stat_defs Let_def)
  have b: "calculate_breaks example_lib partial_example two_column_data ''Monetary''
   = Inr ([Some 9.999, Some 18, Some 26, Some 34, Some 42, Some 50.001],
          [(Some 9.999, Some 17.999), (Some 18, Some 25.999), (Some 26, Some 33.999),
           (Some 34, Some 41.999), (Some 42, Some 50.001)])"
    unfolding calculate_breaks_def l
    by (simp add: partial_example_defs
       numeric_col_def df_get_def stat_defs Let_def df_filtered_def make_breaks_def eps_def
       upt_conv_Cons del: not_None_eq)
  show ?thesis
    unfolding score_variable_def b Let_def
    by (simp add: calculate_score_def two_column_monetary)
       (simp add: partial_example_def score_defs str_lower_def lower_char_def)
qed

lemma partial_example_loop:
  "score_loop example_lib partial_example two_column_data (variables_config partial_example)
     ([], [])
   = ([(''Monetary_score'', IntCol [1, 2, 3, 4, 5]),
       (''Monetary_range'',
        RangeCol [Some (Some 9.999, Some 17.999), Some (Some 18, Some 25.999),
                  Some (Some 26, Some 33.999), Some (Some 34, Some 41.999),
                  Some (Some 42, Some 50.001)])],
      [ConfigNotFound ''Recency'', ProcessingError ''Frequency'' ValueError])"
proof -
  have v: "variables_config partial_example =
        [(''Recency'', iqr_percentiles),
         (''Frequency'', iqr_percentiles\<lparr>breaks_method := Some ''quantiles''\<rparr>),
         (''Monetary'', iqr_percentiles)]"
    by (simp add: partial_example_def)
  show ?thesis
    by (simp add: v partial_example_recency partial_example_frequency
        partial_example_monetary df_set_def)
qed


text \<open>With a label that occurs twice the call raises, after the loop has ended.\<close>

lemma process_rfm_data_duplicate_labels:
  "process_rfm_data example_lib partial_example
     [IntLabel 0, IntLabel 1, IntLabel 2, IntLabel 3, IntLabel 3] two_column_data
   = (Inl InvalidIndexError,
      [ConfigNotFound ''Recency'', ProcessingError ''Frequency'' ValueError])"
  by (simp add: process_rfm_data_def partial_example_loop pd_concat_axis1_def frame_rows_def
      default_index_def Let_def upt_conv_Cons)


section \<open>Failures of the break calculation\<close>

lemma linspace_interior_in_range:
  assumes "linspace_interior n = Inr qs"
  shows "list_all (\<lambda>q. 0 \<le> q \<and> q \<le> 100) qs \<and> length qs = nat n - 1"
proof -
  from assms have qs: "qs = map (\<lambda>i. 100 * real i / real_of_int n) [1 ..< nat n]"
    by (simp add: linspace_interior_def split: if_splits)
  have "0 \<le> 100 * real i / real_of_int n \<and> 100 * real i / real_of_int n \<le> 100"
    if "i \<in> set [1 ..< nat n]" for i
  proof -
    from that have "0 < n" and "real i \<le> real_of_int n" by auto
    then show ?thesis by (simp add: field_simps)
  qed
  then show ?thesis by (simp add: qs list_all_iff)
qed







section \<open>Outlier bounds\<close>

lemma lerp_between:
  fixes s :: "real list"
  assumes "sorted s" "s \<noteq> []" "0 \<le> pos" "pos \<le> real (length s - 1)"
  defines "lo \<equiv> nat \<lfloor>pos\<rfloor>"
  defines "hi \<equiv> min (lo + 1) (length s - 1)"
  shows "lo \<le> hi" "hi < length s"
    "s ! lo \<le> s ! lo + (pos - real lo) * (s ! hi - s ! lo)"
    "s ! lo + (pos - real lo) * (s ! hi - s ! lo) \<le> s ! hi"
proof -
  have lo_le: "real lo \<le> pos" using assms(3) by (simp add: lo_def)
  have "lo \<le> length s - 1"
    using assms(3,4) by (simp add: lo_def le_nat_floor nat_le_iff floor_le_iff)
  then show 1: "lo \<le> hi" by (simp add: hi_def)
  have "0 < length s" using assms(2) by simp
  then show 2: "hi < length s" unfolding hi_def by linarith
  have fr: "0 \<le> pos - real lo" "pos - real lo \<le> 1"
    using lo_le assms(3) by (simp_all add: lo_def, linarith)
  have le: "s ! lo \<le> s ! hi" using assms(1) 1 2 by (rule sorted_nth_mono)
  then have d: "0 \<le> s ! hi - s ! lo" by simp
  show "s ! lo \<le> s ! lo + (pos - real lo) * (s ! hi - s ! lo)"
    using fr(1) d by simp
  have "(pos - real lo) * (s ! hi - s ! lo) \<le> 1 * (s ! hi - s ! lo)"
    using fr(2) d by (rule mult_right_mono)
  then show "s ! lo + (pos - real lo) * (s ! hi - s ! lo) \<le> s ! hi" by simp
qed

lemma lerp_quantile_mono:
  assumes "ys \<noteq> []" "0 \<le> q1" "q1 \<le> q2" "q2 \<le> 1"
  shows "lerp_quantile ys q1 \<le> lerp_quantile ys q2"
proof -
  define s where "s = sort ys"
  have srt: "sorted s" by (simp add: s_def)
  have "length s = length ys" by (simp add: s_def)
  with assms(1) have ne: "s \<noteq> []" by auto
  define p1 where "p1 = q1 * real (length s - 1)"
  define p2 where "p2 = q2 * real (length s - 1)"
  define l1 where "l1 = nat \<lfloor>p1\<rfloor>"
  define l2 where "l2 = nat \<lfloor>p2\<rfloor>"
  define h1 where "h1 = min (l1 + 1) (length s - 1)"
  define h2 where "h2 = min (l2 + 1) (length s - 1)"
  have p: "0 \<le> p1" "p1 \<le> p2" "p2 \<le> real (length s - 1)"
    using assms(2-4) by (simp_all add: p1_def p2_def mult_right_mono mult_left_le_one_le)
  then have p': "0 \<le> p2" "p1 \<le> real (length s - 1)" by simp_all
  have e1: "lerp_quantile ys q1 = s ! l1 + (p1 - real l1) * (s ! h1 - s ! l1)"
    by (simp add: lerp_quantile_def Let_def s_def p1_def l1_def h1_def)
  have e2: "lerp_quantile ys q2 = s ! l2 + (p2 - real l2) * (s ! h2 - s ! l2)"
    by (simp add: lerp_quantile_def Let_def s_def p2_def l2_def h2_def)
  have b1: "l1 \<le> h1" "h1 < length s"
    "s ! l1 + (p1 - real l1) * (s ! h1 - s ! l1) \<le> s ! h1"
    unfolding l1_def h1_def by (rule lerp_between [OF srt ne p(1) p'(2)])+
  have b2: "l2 \<le> h2" "h2 < length s"
    "s ! l2 \<le> s ! l2 + (p2 - real l2) * (s ! h2 - s ! l2)"
    unfolding l2_def h2_def by (rule lerp_between [OF srt ne p'(1) p(3)])+
  have l12: "l1 \<le> l2" using p(1,2) by (simp add: l1_def l2_def nat_mono floor_mono)
  show ?thesis
  proof (cases "l1 = l2")
    case True
    then have "h1 = h2" by (simp add: h1_def h2_def)
    moreover have "0 \<le> s ! h1 - s ! l1"
      using sorted_nth_mono [OF srt b1(1) b1(2)] by simp
    ultimately have "(p1 - real l1) * (s ! h1 - s ! l1) \<le> (p2 - real l2) * (s ! h2 - s ! l2)"
      using True p(2) by (simp add: mult_right_mono)
    with True show ?thesis by (simp add: e1 e2)
  next
    case False
    with l12 have "l1 + 1 \<le> l2" by simp
    then have "h1 \<le> l2" by (simp add: h1_def)
    moreover have "l2 < length s" using b2(1,2) by simp
    ultimately have "s ! h1 \<le> s ! l2" using srt by (simp add: sorted_nth_mono)
    with b1(3) b2(3) show ?thesis by (simp add: e1 e2)
  qed
qed

lemma present_all: "None \<notin> set xs \<Longrightarrow> length (present xs) = length xs"
  by (induction xs rule: present.induct) auto





section \<open>Cut-points of the percentile method\<close>

lemma lerp_quantile_in_sample:
  assumes "ys \<noteq> []" "0 \<le> q" "q \<le> 1"
  shows "Min (set ys) \<le> lerp_quantile ys q \<and> lerp_quantile ys q \<le> Max (set ys)"
proof -
  define s where "s = sort ys"
  have srt: "sorted s" by (simp add: s_def)
  have "length s = length ys" by (simp add: s_def)
  with assms(1) have ne: "s \<noteq> []" by auto
  have st: "set s = set ys" by (simp add: s_def)
  define p where "p = q * real (length s - 1)"
  define l where "l = nat \<lfloor>p\<rfloor>"
  define h where "h = min (l + 1) (length s - 1)"
  have p: "0 \<le> p" "p \<le> real (length s - 1)"
    using assms(2,3) by (simp_all add: p_def mult_left_le_one_le)
  have e: "lerp_quantile ys q = s ! l + (p - real l) * (s ! h - s ! l)"
    by (simp add: lerp_quantile_def Let_def s_def p_def l_def h_def)
  have b: "l \<le> h" "h < length s"
    "s ! l \<le> s ! l + (p - real l) * (s ! h - s ! l)"
    "s ! l + (p - real l) * (s ! h - s ! l) \<le> s ! h"
    unfolding l_def h_def by (rule lerp_between [OF srt ne p])+
  from b(1,2) have "s ! l \<in> set ys" "s ! h \<in> set ys"
    using st nth_mem [of l s] nth_mem [of h s] by auto
  then have "Min (set ys) \<le> s ! l" "s ! h \<le> Max (set ys)" by simp_all
  with b(3,4) show ?thesis by (simp add: e)
qed

lemma present_set: "set (present xs) = {x. Some x \<in> set xs}"
  by (induction xs rule: present.induct) auto

text \<open>
  The theorems on the range lookup and on the scores assume finite, ordered cut-points.
  The percentile method delivers them whenever some value passes the filter.
\<close>

lemma percentile_breaks_ordered:
  assumes cb: "calculate_breaks lib self df column = Inr (breaks, ranges)"
    and vc: "map_of (variables_config self) column = Some vc"
    and pm: "breaks_method vc = Some ''percentiles''"
    and ol: "calculate_outliers_limits lib self df column = Inr (LI, LS, sp, mn, mx)"
    and nc: "numeric_col df column = Inr xs"
    and fne: "df_filtered LI LS xs \<noteq> []"
  shows "None \<notin> set breaks \<and> sorted (map the breaks)"
proof -
  let ?f = "df_filtered LI LS xs"
  let ?ys = "present ?f"
  have fin: "None \<notin> set ?f" by (auto simp: df_filtered_def)
  have sub: "set ?ys \<subseteq> set (present xs)"
    by (auto simp: present_set df_filtered_def)
  have "length ?ys = length ?f" using fin by (rule present_all)
  with fne have yne: "?ys \<noteq> []" by auto
  then have pne: "present xs \<noteq> []" using sub by auto
  from limits_min_max [OF ol] nc have mn: "mn = Some (Min (set (present xs)))"
    and mx: "mx = Some (Max (set (present xs)))"
    using pne by (auto simp: series_min_def series_max_def)
  from cb vc pm ol nc obtain qs where
    qs: "linspace_interior (num_categories self) = Inr qs"
    and bk: "(breaks, ranges) = make_breaks mn mx
               (map (\<lambda>q. Some (lerp_quantile ?ys (q / 100))) qs)"
    using fne fin
    by (auto simp: calculate_breaks_def Let_def np_percentiles_def
        split: sum.splits if_splits)
  let ?g = "\<lambda>q. lerp_quantile ?ys (q / 100)"
  have b: "breaks = map Some ((Min (set (present xs)) - eps) # map ?g qs
                       @ [Max (set (present xs)) + eps])"
    using bk by (simp add: make_breaks_def mn mx comp_def Let_def)
  have rng: "0 \<le> q / 100 \<and> q / 100 \<le> 1" if "q \<in> set qs" for q
    using linspace_interior_in_range [OF qs] that by (auto simp: list_all_iff)
  have inner: "Min (set (present xs)) \<le> ?g q \<and> ?g q \<le> Max (set (present xs))"
    if "q \<in> set qs" for q
  proof -
    from lerp_quantile_in_sample [OF yne] rng [OF that]
    have "Min (set ?ys) \<le> ?g q" "?g q \<le> Max (set ?ys)" by simp_all
    moreover have "Min (set (present xs)) \<le> Min (set ?ys)"
      using sub yne by (intro Min_antimono) simp_all
    moreover have "Max (set ?ys) \<le> Max (set (present xs))"
      using sub yne by (intro Max_mono) simp_all
    ultimately show ?thesis by simp
  qed
  have sq: "sorted qs"
  proof -
    let ?h = "\<lambda>i. 100 * real i / real_of_int (num_categories self)"
    from qs have q: "qs = map ?h [1 ..< nat (num_categories self)]"
      by (simp add: linspace_interior_def split: if_splits)
    have "sorted_wrt (\<lambda>a b. ?h a \<le> ?h b) [1 ..< nat (num_categories self)]"
    proof (rule sorted_wrt_mono_rel [of _ "(\<le>)"])
      fix a b assume "a \<in> set [1 ..< nat (num_categories self)]" and ab: "a \<le> b"
      then have "0 \<le> real_of_int (num_categories self)" by auto
      with ab show "?h a \<le> ?h b" by (intro divide_right_mono) simp_all
    next
      show "sorted_wrt (\<le>) [1 ..< nat (num_categories self)]" by simp
    qed
    then show ?thesis by (simp add: q sorted_map)
  qed
  have sg: "sorted (map ?g qs)"
    unfolding sorted_map
  proof (rule sorted_wrt_mono_rel [of _ "(\<le>)"])
    fix a b assume "a \<in> set qs" "b \<in> set qs" "a \<le> b"
    then show "?g a \<le> ?g b"
      using rng [of a] rng [of b] by (intro lerp_quantile_mono [OF yne]) simp_all
  next
    show "sorted_wrt (\<le>) qs" using sq by simp
  qed
  have "sorted ((Min (set (present xs)) - eps) # map ?g qs @ [Max (set (present xs)) + eps])"
  proof -
    have "Min (set (present xs)) \<le> Max (set (present xs))"
      using pne by simp
    then have lo: "Min (set (present xs)) - eps \<le> Max (set (present xs)) + eps"
      by (simp add: eps_def)
    have inner': "Min (set (present xs)) - eps \<le> m \<and> m \<le> Max (set (present xs)) + eps"
      if "m \<in> set (map ?g qs)" for m
    proof -
      from that obtain q where "q \<in> set qs" "m = ?g q" by auto
      with inner [of q] show ?thesis by (simp add: eps_def)
    qed
    show ?thesis
      using sg inner' lo by (simp add: sorted_append)
  qed
  moreover have "None \<notin> set breaks" unfolding b by auto
  moreover have "map the breaks = (Min (set (present xs)) - eps) # map ?g qs
                       @ [Max (set (present xs)) + eps]"
    unfolding b by (simp add: comp_def)
  ultimately show ?thesis by simp
qed

end
